theory Spec2Isabelle
  imports Main "HOL-Library.Sublist" "HOL-Library.Multiset"
begin

section \<open>Python strings\<close>

text \<open>
  A Python \<^verbatim>\<open>str\<close> is a sequence of Unicode code points.  A code point is modelled
  as a natural number and a string as the list of its code points, so that nothing is
  lost on titles outside ASCII.  Literals are written as Isabelle strings and mapped to
  their code points.
\<close>

type_synonym pychar = nat
type_synonym pystr = "pychar list"

abbreviation (input) str :: "string \<Rightarrow> pystr" where
  "str s \<equiv> map of_char s"

text \<open>
  \<^verbatim>\<open>str.isspace\<close> on one code point, as CPython decides it: the ASCII table
  \<^verbatim>\<open>_Py_ascii_whitespace\<close> (TAB, LF, VT, FF, CR, FS, GS, RS, US, SPACE) and, beyond
  ASCII, \<^verbatim>\<open>_PyUnicode_IsWhitespace\<close>.
\<close>

definition py_isspace :: "pychar \<Rightarrow> bool" where
  "py_isspace c \<longleftrightarrow>
     (0x09 \<le> c \<and> c \<le> 0x0D) \<or> (0x1C \<le> c \<and> c \<le> 0x20) \<or> c = 0x85 \<or> c = 0xA0 \<or>
     c = 0x1680 \<or> (0x2000 \<le> c \<and> c \<le> 0x200A) \<or> c = 0x2028 \<or> c = 0x2029 \<or>
     c = 0x202F \<or> c = 0x205F \<or> c = 0x3000"

text \<open>\<^verbatim>\<open>s.strip()\<close>: drop the whitespace at both ends.\<close>

definition py_strip :: "pystr \<Rightarrow> pystr" where
  "py_strip s = rev (dropWhile py_isspace (rev (dropWhile py_isspace s)))"

text \<open>\<^verbatim>\<open>s.replace(char, '')\<close> for a one-character \<^verbatim>\<open>char\<close>: every occurrence goes.\<close>

definition py_replace_empty :: "pychar \<Rightarrow> pystr \<Rightarrow> pystr" where
  "py_replace_empty char s = filter (\<lambda>c. c \<noteq> char) s"

text \<open>\<^verbatim>\<open>str(n)\<close> of an integer, as an f-string formats it: decimal, with a minus sign.\<close>

function str_nat :: "nat \<Rightarrow> pystr" where
  "str_nat n = (if n < 10 then [48 + n] else str_nat (n div 10) @ [48 + n mod 10])"
  by pat_completeness auto
termination
  by (relation "measure id") auto

declare str_nat.simps [simp del]

definition str_int :: "int \<Rightarrow> pystr" where
  "str_int i = (if i < 0 then 45 # str_nat (nat (- i)) else str_nat (nat i))"

text \<open>Truthiness of a value that is \<^verbatim>\<open>None\<close> or a string, and of one that is
  \<^verbatim>\<open>None\<close> or an integer.\<close>

fun truthy_str :: "pystr option \<Rightarrow> bool" where
  "truthy_str None = False"
| "truthy_str (Some s) = (s \<noteq> [])"

fun truthy_int :: "int option \<Rightarrow> bool" where
  "truthy_int None = False"
| "truthy_int (Some i) = (i \<noteq> 0)"

text \<open>Whether a string starts, or ends, with a whitespace character.\<close>

definition starts_with_space :: "pystr \<Rightarrow> bool" where
  "starts_with_space s = (case s of [] \<Rightarrow> False | c # _ \<Rightarrow> py_isspace c)"

definition ends_with_space :: "pystr \<Rightarrow> bool" where
  "ends_with_space s = starts_with_space (rev s)"

section \<open>The name sanitizer\<close>

text \<open>
  \<^verbatim>\<open>
  def sanitize_filename(name):
      invalid = r'<>:"/\|?*'
      for char in invalid:
          name = name.replace(char, '')
      return name.strip()
  \<close>
  The nine characters of \<^verbatim>\<open>invalid\<close>, in the order of the literal; the double quote
  and the backslash are given by their code.
\<close>

definition invalid :: pystr where
  "invalid = str (''<>:'' @ [CHR 0x22] @ ''/'' @ [CHR 0x5C] @ ''|?*'')"

definition sanitize_filename :: "pystr \<Rightarrow> pystr" where
  "sanitize_filename name = py_strip (fold py_replace_empty invalid name)"

section \<open>The regular expression of the query builder\<close>

text \<open>
  \<^verbatim>\<open>re.sub(r"[\(\[].*?[\)\]]", "", query)\<close> uses three constructs of Python's
  \<^verbatim>\<open>re\<close>: a character set, the dot (any character but the newline, as no flag is
  given) and the lazy star.  A pattern of this fragment is a sequence of items.
\<close>

datatype re_atom = InSet "pychar list" | Dot

datatype re_item = One re_atom | LazyStar re_atom

fun atom_matches :: "re_atom \<Rightarrow> pychar \<Rightarrow> bool" where
  "atom_matches (InSet cs) c = (c \<in> set cs)"
| "atom_matches Dot c = (c \<noteq> 10)"

text \<open>
  The backtracking matcher, anchored at the head of the string: the rest of the string
  after the first match in the engine's order of preference, or \<open>None\<close>.  A lazy star
  tries the rest of the pattern first and takes one more character only when that fails.
\<close>

fun re_match :: "re_item list \<Rightarrow> pystr \<Rightarrow> pystr option" where
  "re_match [] s = Some s"
| "re_match (One a # r) [] = None"
| "re_match (One a # r) (c # cs) = (if atom_matches a c then re_match r cs else None)"
| "re_match (LazyStar a # r) [] = re_match r []"
| "re_match (LazyStar a # r) (c # cs) =
     (case re_match r (c # cs) of
        Some rest \<Rightarrow> Some rest
      | None \<Rightarrow> if atom_matches a c then re_match (LazyStar a # r) cs else None)"

text \<open>
  \<^verbatim>\<open>re.sub(pattern, "", s)\<close>: scan from the left, drop each match and go on behind it;
  where the pattern does not match, keep the character and move one position.  The
  test on the lengths is what makes the recursion end; the pattern below needs two
  characters, so its matches always pass it.
\<close>

function re_sub_empty :: "re_item list \<Rightarrow> pystr \<Rightarrow> pystr" where
  "re_sub_empty p [] = []"
| "re_sub_empty p (c # cs) =
     (case re_match p (c # cs) of
        Some rest \<Rightarrow>
          if length rest < length (c # cs) then re_sub_empty p rest
          else c # re_sub_empty p cs
      | None \<Rightarrow> c # re_sub_empty p cs)"
  by pat_completeness auto
termination
  by (relation "measure (\<lambda>(p, s). length s)") auto

text \<open>The pattern \<^verbatim>\<open>[\(\[].*?[\)\]]\<close>.\<close>

definition span_pattern :: "re_item list" where
  "span_pattern = [One (InSet (str ''(['')), LazyStar Dot, One (InSet (str '')]''))]"

text \<open>
  The spans in words, for comparison with \<open>re_sub_empty span_pattern\<close>: after an
  opening character, \<open>span_end\<close> looks for the first closing character and gives up at
  a newline; \<open>remove_spans\<close> deletes, from left to right, every opening character
  together with everything up to that closing character.
\<close>

fun span_end :: "pystr \<Rightarrow> pystr option" where
  "span_end [] = None"
| "span_end (c # cs) =
     (if c \<in> set (str '')]'') then Some cs
      else if c = 10 then None
      else span_end cs)"

function remove_spans :: "pystr \<Rightarrow> pystr" where
  "remove_spans [] = []"
| "remove_spans (c # cs) =
     (if c \<in> set (str ''(['') then
        (case span_end cs of
           Some rest \<Rightarrow> if length rest < length (c # cs) then remove_spans rest else c # remove_spans cs
         | None \<Rightarrow> c # remove_spans cs)
      else c # remove_spans cs)"
  by pat_completeness auto
termination
  by (relation "measure length") auto

section \<open>Candidates and the metadata search\<close>

text \<open>
  A candidate is one \<^verbatim>\<open>media\<close> object of the answer, with the fields the GraphQL
  query asks for.  Both titles and the year are nullable.
\<close>

record anime =
  anime_id :: int
  title_romaji :: "pystr option"
  title_english :: "pystr option"
  startDate_year :: "int option"

datatype py_exn =
  ConnectionError | HTTPError | JSONDecodeError | AttributeError | TypeError
  | IndexError | KeyError | OSError

definition ANILIST_URL :: pystr where
  "ANILIST_URL = str ''https://graphql.anilist.co''"

definition ANILIST_QUERY :: pystr where
  "ANILIST_QUERY = concat (map (\<lambda>l. 10 # str l)
     [''query ($search: String) {'',
      ''  Page(perPage: 10) {'',
      ''    media(search: $search, type: ANIME) {'',
      ''      id'',
      ''      title {'',
      ''        romaji'',
      ''        english'',
      ''      }'',
      ''      startDate {'',
      ''        year'',
      ''      }'',
      ''    }'',
      ''  }'',
      ''}'']) @ [10]"

text \<open>The JSON body of the one POST: the query text and its variable \<^verbatim>\<open>search\<close>.\<close>

record request =
  req_url :: pystr
  req_query :: pystr
  req_search :: pystr

text \<open>
  What \<^verbatim>\<open>requests.post\<close> does is not decided by this program: it raises, or there
  is a response with a status code and a body.  The body is not JSON, or JSON that is
  no object, or an object; in an object a key is missing, or holds \<^verbatim>\<open>null\<close>, or a
  value.  The three nested keys are \<^verbatim>\<open>data\<close>, \<^verbatim>\<open>Page\<close> and \<^verbatim>\<open>media\<close>.
\<close>

datatype 'a field = Missing | Null | Value 'a

datatype body = NotJson | NotObject | Object "anime list field field field"

datatype http_outcome = PostRaises py_exn | Response nat body

text \<open>
  \<^verbatim>\<open>data.get("data", {}).get("Page", {}).get("media", [])\<close>: a missing key gives the
  default, and \<^verbatim>\<open>.get\<close> on \<^verbatim>\<open>None\<close> raises.  The result is a list or \<^verbatim>\<open>None\<close>.
\<close>

fun get_media :: "anime list field field field \<Rightarrow> py_exn + anime list option" where
  "get_media Missing = Inr (Some [])"
| "get_media Null = Inl AttributeError"
| "get_media (Value Missing) = Inr (Some [])"
| "get_media (Value Null) = Inl AttributeError"
| "get_media (Value (Value Missing)) = Inr (Some [])"
| "get_media (Value (Value Null)) = Inr None"
| "get_media (Value (Value (Value media))) = Inr (Some media)"

definition anilist_request :: "pystr \<Rightarrow> request" where
  "anilist_request query = \<lparr>req_url = ANILIST_URL, req_query = ANILIST_QUERY, req_search = query\<rparr>"

text \<open>
  \<^verbatim>\<open>
  def search_anime(query):
      variables = {"search": query}
      try:
          response = requests.post(ANILIST_URL, json={'query': ANILIST_QUERY, 'variables': variables})
          response.raise_for_status()
          data = response.json()
          return data.get("data", {}).get("Page", {}).get("media", [])
      except Exception as e:
          print(f"[DEBUG] Error querying AniList for '{query}': {e}")
          return []
  \<close>
  \<open>search_anime_try\<close> is the body of the \<^verbatim>\<open>try\<close>; \<^verbatim>\<open>raise_for_status\<close> raises on
  the status codes 400 to 599.  The result of \<open>search_anime\<close> records the requests
  issued, the lines printed and what the caller gets: a value, or an exception.
\<close>

definition search_anime_try :: "(request \<Rightarrow> http_outcome) \<Rightarrow> pystr \<Rightarrow> py_exn + anime list option" where
  "search_anime_try post query =
     (case post (anilist_request query) of
        PostRaises e \<Rightarrow> Inl e
      | Response status body \<Rightarrow>
          if 400 \<le> status \<and> status < 600 then Inl HTTPError
          else (case body of
                  NotJson \<Rightarrow> Inl JSONDecodeError
                | NotObject \<Rightarrow> Inl AttributeError
                | Object d \<Rightarrow> get_media d))"

record search_result =
  sent :: "request list"
  printed :: "(pystr \<times> py_exn) list"
  outcome :: "py_exn + anime list option"

definition search_anime :: "(request \<Rightarrow> http_outcome) \<Rightarrow> pystr \<Rightarrow> search_result" where
  "search_anime post query =
     (case search_anime_try post query of
        Inl e \<Rightarrow> \<lparr>sent = [anilist_request query], printed = [(query, e)], outcome = Inr (Some [])\<rparr>
      | Inr media \<Rightarrow> \<lparr>sent = [anilist_request query], printed = [], outcome = Inr media\<rparr>)"

section \<open>Building the query and ranking the candidates\<close>

text \<open>
  The first lines of \<^verbatim>\<open>fetch_candidates\<close>, on the state of the checkbox, the text of
  the override entry and the folder name:
  \<^verbatim>\<open>
      disregard = self.disregard_brackets_var.get()
      override_query = self.override_search_entry.get().strip()
      if override_query:
          query = override_query
      else:
          query = folder_name
          if disregard:
              query = re.sub(r"[\(\[].*?[\)\]]", "", query).strip()
  \<close>
\<close>

definition fetch_candidates_query :: "bool \<Rightarrow> pystr \<Rightarrow> pystr \<Rightarrow> pystr" where
  "fetch_candidates_query disregard entry folder_name =
     (let override_query = py_strip entry in
      if override_query \<noteq> [] then override_query
      else if disregard then py_strip (re_sub_empty span_pattern folder_name)
      else folder_name)"

text \<open>
  \<^verbatim>\<open>sorted(xs, key=k, reverse=True)\<close>: CPython reverses the list, sorts it stably in
  ascending order of the key and reverses the result, which keeps elements of equal
  key in their original order.
\<close>

definition py_sorted_reverse :: "('a \<Rightarrow> int) \<Rightarrow> 'a list \<Rightarrow> 'a list" where
  "py_sorted_reverse k xs = rev (sort_key k (rev xs))"

text \<open>The key \<^verbatim>\<open>anime["startDate"].get("year") or 0\<close>.\<close>

definition year_key :: "anime \<Rightarrow> int" where
  "year_key a = (if truthy_int (startDate_year a) then the (startDate_year a) else 0)"

text \<open>
  \<^verbatim>\<open>
      if candidates:
          candidates = sorted(candidates, key=lambda anime: anime["startDate"].get("year") or 0, reverse=True)
          candidates = candidates[:5]
  \<close>
\<close>

fun fetch_candidates_rank :: "anime list option \<Rightarrow> anime list option" where
  "fetch_candidates_rank None = None"
| "fetch_candidates_rank (Some candidates) =
     (if candidates \<noteq> [] then Some (take 5 (py_sorted_reverse year_key candidates))
      else Some candidates)"

section \<open>The operating system and the state of the wizard\<close>

text \<open>
  What \<^verbatim>\<open>os.listdir\<close>, \<^verbatim>\<open>os.path.join\<close>, \<^verbatim>\<open>os.path.isdir\<close>, \<^verbatim>\<open>os.path.exists\<close>
  and \<^verbatim>\<open>os.rename\<close> do is a parameter of the model, over any type \<open>'fs\<close> of
  file-system states.  A call that raises gives no new state: a rename that fails has
  changed nothing.
\<close>

record 'fs os_api =
  os_listdir :: "'fs \<Rightarrow> pystr \<Rightarrow> py_exn + pystr list"
  os_path_join :: "pystr \<Rightarrow> pystr \<Rightarrow> pystr"
  os_path_isdir :: "'fs \<Rightarrow> pystr \<Rightarrow> bool"
  os_path_exists :: "'fs \<Rightarrow> pystr \<Rightarrow> bool"
  os_rename :: "'fs \<Rightarrow> pystr \<Rightarrow> pystr \<Rightarrow> py_exn + 'fs"

text \<open>The dialogs of \<^verbatim>\<open>messagebox\<close>, by the place that opens them.\<close>

datatype dialog =
  NoFolders
  | CouldNotDetermine pystr
  | Conflict pystr
  | ErrorRenaming pystr py_exn

text \<open>The content of \<^verbatim>\<open>inner_candidates_frame\<close>: nothing, the label
  \<^verbatim>\<open>No candidates found.\<close>, or one button for each candidate, the button at position
  \<open>i\<close> calling \<^verbatim>\<open>candidate_selected(i)\<close>.\<close>

datatype panel = Cleared | NoCandidatesFound | Buttons "anime list"

text \<open>
  The attributes of \<^verbatim>\<open>AnimeFolderWizard\<close> that the program reads or writes, and the
  effects it has on the outside: the file system, the threads started (by the folder
  name each is given), the requests sent, the calls of \<^verbatim>\<open>os.rename\<close> made, the dialogs
  opened, and the exceptions that no handler caught (Tk and the thread report them and
  go on).  A value of \<open>folder_candidates\<close> or \<open>current_candidates\<close> is a list or
  \<^verbatim>\<open>None\<close>.
\<close>

record 'fs wizard =
  directory :: pystr
  folders :: "pystr list"
  folder_paths :: "pystr \<rightharpoonup> pystr"
  folder_candidates :: "pystr \<rightharpoonup> anime list option"
  selected_candidates :: "pystr \<rightharpoonup> nat"
  current_index :: nat
  current_candidates :: "anime list option"
  disregard_brackets_var :: bool
  override_search_entry :: pystr
  folder_label :: pystr
  candidates_panel :: panel
  skip_btn :: bool
  filesystem :: 'fs
  threads :: "pystr list"
  requests :: "request list"
  renames :: "(pystr \<times> pystr) list"
  dialogs :: "dialog list"
  uncaught :: "py_exn list"

text \<open>\<^verbatim>\<open>__init__\<close> and \<^verbatim>\<open>create_widgets\<close>.\<close>

definition init :: "'fs \<Rightarrow> 'fs wizard" where
  "init fs =
     \<lparr>directory = [], folders = [], folder_paths = Map.empty, folder_candidates = Map.empty,
      selected_candidates = Map.empty, current_index = 0, current_candidates = Some [],
      disregard_brackets_var = True, override_search_entry = [],
      folder_label = str ''Folder:'', candidates_panel = Cleared, skip_btn = False,
      filesystem = fs, threads = [], requests = [], renames = [], dialogs = [], uncaught = []\<rparr>"

section \<open>The folder walk\<close>

text \<open>
  \<^verbatim>\<open>
  def show_current_folder(self):
      if self.current_index >= len(self.folders):
          self.folder_label.config(text="All folders processed.")
          self.clear_candidates()
          self.skip_btn.config(state=tk.DISABLED)
          return
      folder_name = self.folders[self.current_index]
      self.folder_label.config(text=f"Folder: {folder_name}")
      self.clear_candidates()
      self.skip_btn.config(state=tk.NORMAL)
      threading.Thread(target=self.fetch_candidates, args=(folder_name,), daemon=True).start()
  \<close>
\<close>

definition show_current_folder :: "'fs wizard \<Rightarrow> 'fs wizard" where
  "show_current_folder s =
     (if current_index s \<ge> length (folders s) then
        s\<lparr>folder_label := str ''All folders processed.'', candidates_panel := Cleared,
          skip_btn := False\<rparr>
      else
        (let folder_name = folders s ! current_index s in
         s\<lparr>folder_label := str ''Folder: '' @ folder_name, candidates_panel := Cleared,
           skip_btn := True, threads := threads s @ [folder_name]\<rparr>))"

text \<open>
  \<^verbatim>\<open>
  def load_folders(self):
      self.folders = []
      self.folder_paths = {}
      for item in os.listdir(self.directory):
          full_path = os.path.join(self.directory, item)
          if os.path.isdir(full_path):
              self.folders.append(item)
              self.folder_paths[item] = full_path
      if not self.folders:
          messagebox.showinfo("No Folders", "No subfolders found in the selected directory.")
          return
      self.current_index = 0
      self.selected_candidates = {}
      self.folder_candidates = {}
      self.show_current_folder()
  \<close>
  \<open>load_item\<close> is one round of the loop.
\<close>

definition load_item :: "'fs os_api \<Rightarrow> 'fs wizard \<Rightarrow> pystr \<Rightarrow> 'fs wizard" where
  "load_item os s item =
     (let full_path = os_path_join os (directory s) item in
      if os_path_isdir os (filesystem s) full_path then
        s\<lparr>folders := folders s @ [item], folder_paths := (folder_paths s)(item \<mapsto> full_path)\<rparr>
      else s)"

definition load_folders :: "'fs os_api \<Rightarrow> 'fs wizard \<Rightarrow> 'fs wizard" where
  "load_folders os s =
     (let s0 = s\<lparr>folders := [], folder_paths := Map.empty\<rparr> in
      case os_listdir os (filesystem s0) (directory s0) of
        Inl e \<Rightarrow> s0\<lparr>uncaught := uncaught s0 @ [e]\<rparr>
      | Inr items \<Rightarrow>
          (let s1 = fold (\<lambda>item t. load_item os t item) items s0 in
           if folders s1 = [] then s1\<lparr>dialogs := dialogs s1 @ [NoFolders]\<rparr>
           else show_current_folder
                  (s1\<lparr>current_index := 0, selected_candidates := Map.empty,
                      folder_candidates := Map.empty\<rparr>)))"

text \<open>
  \<^verbatim>\<open>
  def select_directory(self):
      folder = filedialog.askdirectory(title="Select Folder Containing Anime Folders")
      if folder:
          self.directory = folder
          self.dir_label.config(text=folder)
          self.load_folders()
  \<close>
  The answer of the dialog is the argument; it is empty when the user cancels.
\<close>

definition select_directory :: "'fs os_api \<Rightarrow> 'fs wizard \<Rightarrow> pystr \<Rightarrow> 'fs wizard" where
  "select_directory os s folder =
     (if folder \<noteq> [] then load_folders os (s\<lparr>directory := folder\<rparr>) else s)"

text \<open>
  \<^verbatim>\<open>
  def fetch_candidates(self, folder_name):
      ...
      print(f"[DEBUG] Searching with query: '{query}'")
      candidates = search_anime(query)
      if candidates:
          candidates = sorted(...)
          candidates = candidates[:5]
      self.current_candidates = candidates
      self.folder_candidates[folder_name] = candidates
      self.after(0, self.show_candidates)
  \<close>
  The body of the thread.  Were \<^verbatim>\<open>search_anime\<close> to raise, the thread would end there.
\<close>

definition fetch_candidates :: "(request \<Rightarrow> http_outcome) \<Rightarrow> 'fs wizard \<Rightarrow> pystr \<Rightarrow> 'fs wizard" where
  "fetch_candidates post s folder_name =
     (let query = fetch_candidates_query (disregard_brackets_var s) (override_search_entry s)
                    folder_name;
          r = search_anime post query;
          s1 = s\<lparr>requests := requests s @ sent r\<rparr>
      in case outcome r of
           Inl e \<Rightarrow> s1\<lparr>uncaught := uncaught s1 @ [e]\<rparr>
         | Inr found \<Rightarrow>
             (let candidates = fetch_candidates_rank found in
              s1\<lparr>current_candidates := candidates,
                 folder_candidates := (folder_candidates s1)(folder_name \<mapsto> candidates)\<rparr>))"

text \<open>
  \<^verbatim>\<open>
  def show_candidates(self):
      self.clear_candidates()
      if not self.current_candidates:
          lbl = tk.Label(self.inner_candidates_frame, text="No candidates found.")
          return
      for idx, anime in enumerate(self.current_candidates):
          ...
          btn = tk.Button(..., command=lambda i=idx: self.candidate_selected(i))
  \<close>
\<close>

definition show_candidates :: "'fs wizard \<Rightarrow> 'fs wizard" where
  "show_candidates s =
     (case current_candidates s of
        None \<Rightarrow> s\<lparr>candidates_panel := NoCandidatesFound\<rparr>
      | Some cs \<Rightarrow>
          if cs = [] then s\<lparr>candidates_panel := NoCandidatesFound\<rparr>
          else s\<lparr>candidates_panel := Buttons cs\<rparr>)"

text \<open>
  \<^verbatim>\<open>
  def get_new_name(self, folder):
      candidate_index = self.selected_candidates.get(folder)
      candidates = self.folder_candidates.get(folder, [])
      if candidate_index is None or candidate_index >= len(candidates):
          print(f"[DEBUG] No candidate selected for folder '{folder}'.")
          return None
      anime = candidates[candidate_index]
      title = anime["title"]["english"] or anime["title"]["romaji"]
      year = anime["startDate"].get("year")
      new_name = f"{title} ({year})" if year else title
      new_name = sanitize_filename(new_name)
      print(f"[DEBUG] Folder '{folder}' will be renamed to '{new_name}'.")
      return new_name
  \<close>
  The result is \<^verbatim>\<open>None\<close> or a string.  \<^verbatim>\<open>len\<close> of \<^verbatim>\<open>None\<close> raises, and so does
  \<^verbatim>\<open>sanitize_filename\<close> of a title that is \<^verbatim>\<open>None\<close>; inside the f-string a title
  that is \<^verbatim>\<open>None\<close> is formatted as the word \<^verbatim>\<open>None\<close>.
\<close>

definition py_or_str :: "pystr option \<Rightarrow> pystr option \<Rightarrow> pystr option" where
  "py_or_str a b = (if truthy_str a then a else b)"

definition format_str :: "pystr option \<Rightarrow> pystr" where
  "format_str v = (case v of None \<Rightarrow> str ''None'' | Some t \<Rightarrow> t)"

definition get_new_name :: "'fs wizard \<Rightarrow> pystr \<Rightarrow> py_exn + pystr option" where
  "get_new_name s folder =
     (let candidate_index = selected_candidates s folder;
          candidates = (case folder_candidates s folder of None \<Rightarrow> Some [] | Some v \<Rightarrow> v)
      in case candidate_index of
           None \<Rightarrow> Inr None
         | Some i \<Rightarrow>
             (case candidates of
                None \<Rightarrow> Inl TypeError
              | Some cs \<Rightarrow>
                  if i \<ge> length cs then Inr None
                  else
                    (let anime = cs ! i;
                         title = py_or_str (title_english anime) (title_romaji anime);
                         year = startDate_year anime
                     in if truthy_int year then
                          Inr (Some (sanitize_filename
                                 (format_str title @ str '' ('' @ str_int (the year) @ str '')'')))
                        else
                          (case title of
                             None \<Rightarrow> Inl AttributeError
                           | Some t \<Rightarrow> Inr (Some (sanitize_filename t))))))"

text \<open>
  \<^verbatim>\<open>
  def next_folder(self):
      self.current_index += 1
      self.show_current_folder()

  def skip_folder(self):
      folder_name = self.folders[self.current_index]
      print(f"[DEBUG] Skipping folder '{folder_name}'.")
      self.next_folder()
  \<close>
\<close>

definition next_folder :: "'fs wizard \<Rightarrow> 'fs wizard" where
  "next_folder s = show_current_folder (s\<lparr>current_index := current_index s + 1\<rparr>)"

definition skip_folder :: "'fs wizard \<Rightarrow> 'fs wizard" where
  "skip_folder s =
     (if current_index s \<ge> length (folders s) then s\<lparr>uncaught := uncaught s @ [IndexError]\<rparr>
      else next_folder s)"

text \<open>
  \<^verbatim>\<open>
  def candidate_selected(self, index):
      folder_name = self.folders[self.current_index]
      self.selected_candidates[folder_name] = index
      new_name = self.get_new_name(folder_name)
      if not new_name:
          messagebox.showerror("Error", f"Could not determine new name for folder '{folder_name}'.")
          return
      old_path = self.folder_paths[folder_name]
      new_path = os.path.join(self.directory, new_name)
      if os.path.exists(new_path):
          messagebox.showerror("Conflict", f"Conflict on disk: '{new_name}' already exists.")
          return
      try:
          os.rename(old_path, new_path)
          print(f"[DEBUG] Renamed '{folder_name}' to '{new_name}'.")
      except Exception as e:
          messagebox.showerror("Error", f"Error renaming folder '{folder_name}': {e}")
          return
      self.next_folder()
  \<close>
\<close>

definition candidate_selected :: "'fs os_api \<Rightarrow> 'fs wizard \<Rightarrow> nat \<Rightarrow> 'fs wizard" where
  "candidate_selected os s index =
     (if current_index s \<ge> length (folders s) then s\<lparr>uncaught := uncaught s @ [IndexError]\<rparr>
      else
        (let folder_name = folders s ! current_index s;
             s1 = s\<lparr>selected_candidates := (selected_candidates s)(folder_name \<mapsto> index)\<rparr>
         in case get_new_name s1 folder_name of
              Inl e \<Rightarrow> s1\<lparr>uncaught := uncaught s1 @ [e]\<rparr>
            | Inr new_name \<Rightarrow>
                if \<not> truthy_str new_name then
                  s1\<lparr>dialogs := dialogs s1 @ [CouldNotDetermine folder_name]\<rparr>
                else
                  (case folder_paths s1 folder_name of
                     None \<Rightarrow> s1\<lparr>uncaught := uncaught s1 @ [KeyError]\<rparr>
                   | Some old_path \<Rightarrow>
                       (let new_path = os_path_join os (directory s1) (the new_name) in
                        if os_path_exists os (filesystem s1) new_path then
                          s1\<lparr>dialogs := dialogs s1 @ [Conflict (the new_name)]\<rparr>
                        else
                          (case os_rename os (filesystem s1) old_path new_path of
                             Inl e \<Rightarrow>
                               s1\<lparr>renames := renames s1 @ [(old_path, new_path)],
                                  dialogs := dialogs s1 @ [ErrorRenaming folder_name e]\<rparr>
                           | Inr fs' \<Rightarrow>
                               next_folder
                                 (s1\<lparr>filesystem := fs',
                                     renames := renames s1 @ [(old_path, new_path)]\<rparr>))))))"

section \<open>Events\<close>

text \<open>
  Between two events the main loop is idle.  An event is an action of the user on a
  widget, or a search thread running to its end with the outcome of its one request
  (its \<^verbatim>\<open>after(0, self.show_candidates)\<close> is run with it).  A disabled button and a
  button that is not on the panel cannot be clicked.
\<close>

datatype event =
  SelectDirectory pystr
  | SetCheckbox bool
  | TypeOverride pystr
  | ClickSkip
  | ClickCandidate nat
  | ThreadRuns pystr http_outcome

fun step :: "'fs os_api \<Rightarrow> 'fs wizard \<Rightarrow> event \<Rightarrow> 'fs wizard" where
  "step os s (SelectDirectory folder) = select_directory os s folder"
| "step os s (SetCheckbox b) = s\<lparr>disregard_brackets_var := b\<rparr>"
| "step os s (TypeOverride t) = s\<lparr>override_search_entry := t\<rparr>"
| "step os s ClickSkip = (if skip_btn s then skip_folder s else s)"
| "step os s (ClickCandidate i) =
     (case candidates_panel s of
        Buttons cs \<Rightarrow> if i < length cs then candidate_selected os s i else s
      | _ \<Rightarrow> s)"
| "step os s (ThreadRuns folder_name out) =
     show_candidates (fetch_candidates (\<lambda>_. out) s folder_name)"

fun run :: "'fs os_api \<Rightarrow> 'fs wizard \<Rightarrow> event list \<Rightarrow> 'fs wizard" where
  "run os s [] = s"
| "run os s (ev # evs) = run os (step os s ev) evs"

text \<open>The events of a walk: all but the choice of another directory.\<close>

fun walk_event :: "event \<Rightarrow> bool" where
  "walk_event (SelectDirectory _) = False"
| "walk_event _ = True"

section \<open>The invariant of a walk\<close>

text \<open>
  What every state of a walk over the folder list \<open>fl\<close> satisfies, \<open>started\<close> being
  the threads started before the walk: the folder list is unchanged, the index is at
  most its length, the threads started since are the folders up to the index in the
  order of the list, the skip button is enabled exactly while a folder is left, and the
  label names the folder at the index.
\<close>

definition walk_inv :: "pystr list \<Rightarrow> pystr list \<Rightarrow> 'fs wizard \<Rightarrow> bool" where
  "walk_inv fl started s \<longleftrightarrow>
     folders s = fl \<and> current_index s \<le> length fl
     \<and> threads s = started @ take (Suc (current_index s)) fl
     \<and> skip_btn s = (current_index s < length fl)
     \<and> folder_label s =
         (if current_index s < length fl then str ''Folder: '' @ fl ! current_index s
          else str ''All folders processed.'')"

section \<open>Sample data\<close>

text \<open>Candidates for concrete runs; an empty title stands for \<^verbatim>\<open>null\<close>.\<close>

definition candidate :: "int \<Rightarrow> string \<Rightarrow> string \<Rightarrow> int option \<Rightarrow> anime" where
  "candidate i romaji english y =
     \<lparr>anime_id = i, title_romaji = (if romaji = [] then None else Some (str romaji)),
      title_english = (if english = [] then None else Some (str english)),
      startDate_year = y\<rparr>"

definition sample :: "anime list" where
  "sample = [candidate 1 ''A'' [] None, candidate 2 ''B'' [] (Some 2013),
             candidate 3 ''C'' [] (Some 2020), candidate 4 ''D'' [] (Some 2013),
             candidate 5 ''E'' [] None, candidate 6 ''F'' [] (Some 1998),
             candidate 7 ''G'' [] (Some 2020)]"

text \<open>
  A small operating system for concrete runs.  A file system is the list of the paths
  that exist, all of them directories; \<^verbatim>\<open>os.path.join\<close> is the POSIX one; a rename
  needs its source to exist.  \<open>readonly_os\<close> differs in that every rename raises.
\<close>

definition posix_join :: "pystr \<Rightarrow> pystr \<Rightarrow> pystr" where
  "posix_join a b =
     (if b \<noteq> [] \<and> hd b = 47 then b
      else if a = [] \<or> last a = 47 then a @ b
      else a @ [47] @ b)"

definition flat_listdir :: "pystr list \<Rightarrow> pystr \<Rightarrow> py_exn + pystr list" where
  "flat_listdir fs d =
     (if d \<in> set fs
      then Inr (map (drop (length d + 1)) (filter (\<lambda>p. take (length d + 1) p = d @ [47]) fs))
      else Inl OSError)"

definition flat_rename :: "pystr list \<Rightarrow> pystr \<Rightarrow> pystr \<Rightarrow> py_exn + pystr list" where
  "flat_rename fs old new =
     (if old \<in> set fs then Inr (map (\<lambda>p. if p = old then new else p) fs) else Inl OSError)"

definition flat_os :: "pystr list os_api" where
  "flat_os =
     \<lparr>os_listdir = flat_listdir, os_path_join = posix_join,
      os_path_isdir = (\<lambda>fs p. p \<in> set fs), os_path_exists = (\<lambda>fs p. p \<in> set fs),
      os_rename = flat_rename\<rparr>"

definition readonly_os :: "pystr list os_api" where
  "readonly_os = flat_os\<lparr>os_rename := (\<lambda>fs old new. Inl OSError)\<rparr>"

text \<open>
  A directory \<^verbatim>\<open>/a\<close> with two folders, and the same with a third folder that already
  has the name of a candidate.  \<open>demo\<close> is the wizard after the directory is chosen
  and the search for the first folder has returned the given candidates.
\<close>

definition fs_a :: "pystr list" where
  "fs_a = [str ''/a'', str ''/a/AoT [BD]'', str ''/a/Naruto'']"

definition fs_b :: "pystr list" where
  "fs_b = [str ''/a'', str ''/a/AoT [BD]'', str ''/a/Attack on Titan (2013)'', str ''/a/Naruto'']"

definition aot :: anime where
  "aot = candidate 1 ''Shingeki no Kyojin'' ''Attack on Titan'' (Some 2013)"

definition found :: "anime list \<Rightarrow> http_outcome" where
  "found cs = Response 200 (Object (Value (Value (Value cs))))"

definition demo :: "pystr list os_api \<Rightarrow> pystr list \<Rightarrow> anime list \<Rightarrow> pystr list wizard" where
  "demo os fs cs =
     run os (init fs) [SelectDirectory (str ''/a''), ThreadRuns (str ''AoT [BD]'') (found cs)]"

text \<open>
  The wizard after the first folder is skipped and the search started for it returns
  only then.
\<close>

definition late :: "pystr list wizard" where
  "late = run flat_os (init fs_a)
     [SelectDirectory (str ''/a''), ClickSkip, ThreadRuns (str ''AoT [BD]'') (found [aot])]"

text \<open>A candidate whose English title holds only characters that the sanitizer removes.\<close>

definition punct :: anime where
  "punct = candidate 2 ''Nani'' '' ?*'' None"

text \<open>
  A whole walk: the directory is enumerated, the search for the first folder returns,
  its candidate is picked, and the second folder is skipped.
\<close>

definition start :: "pystr list wizard" where
  "start = (init fs_a)\<lparr>directory := str ''/a''\<rparr>"

definition walk :: "event list" where
  "walk = [ThreadRuns (str ''AoT [BD]'') (found [aot]), ClickCandidate 0, ClickSkip]"

text \<open>
  Two runs in which the search for the first folder returns after the folder was
  skipped and after the search for the second folder has returned: in \<open>crossed\<close> the
  second folder has a candidate of its own, in \<open>nulled\<close> the answer for the second
  folder holds \<^verbatim>\<open>"media": null\<close>.
\<close>

definition junior :: anime where
  "junior = candidate 3 ''Shingeki! Kyojin Chuugakkou'' ''Attack on Titan Junior High'' (Some 2015)"

definition boruto :: anime where
  "boruto = candidate 4 ''Boruto'' ''Boruto'' (Some 2017)"

definition answered :: "pystr list wizard" where
  "answered = run flat_os (init fs_a)
     [SelectDirectory (str ''/a''), ClickSkip, ThreadRuns (str ''Naruto'') (found [boruto])]"

definition crossed :: "pystr list wizard" where
  "crossed = step flat_os answered (ThreadRuns (str ''AoT [BD]'') (found [junior]))"

definition nulled :: "pystr list wizard" where
  "nulled = run flat_os (init fs_a)
     [SelectDirectory (str ''/a''), ClickSkip,
      ThreadRuns (str ''Naruto'') (Response 200 (Object (Value (Value Null)))),
      ThreadRuns (str ''AoT [BD]'') (found [aot])]"

section \<open>Properties of the string functions\<close>

lemma fold_py_replace_empty:
  "fold py_replace_empty cs s = filter (\<lambda>c. c \<notin> set cs) s"
proof (induction cs arbitrary: s)
  case Nil
  show ?case by simp
next
  case (Cons a cs)
  have "fold py_replace_empty (a # cs) s = fold py_replace_empty cs (py_replace_empty a s)"
    by simp
  also have "\<dots> = filter (\<lambda>c. c \<notin> set cs) (filter (\<lambda>c. c \<noteq> a) s)"
    by (simp add: Cons.IH py_replace_empty_def)
  also have "\<dots> = filter (\<lambda>c. c \<notin> set (a # cs)) s"
    by (simp add: conj_commute)
  finally show ?case .
qed

lemma set_py_strip: "set (py_strip s) \<subseteq> set s"
proof -
  have "set (py_strip s) = set (dropWhile py_isspace (rev (dropWhile py_isspace s)))"
    by (simp add: py_strip_def)
  also have "\<dots> \<subseteq> set (rev (dropWhile py_isspace s))"
    by (rule set_dropWhileD [THEN subsetI])
  also have "\<dots> \<subseteq> set s"
    using set_dropWhileD by fastforce
  finally show ?thesis .
qed

lemma subseq_dropWhile: "subseq (dropWhile P xs) xs"
  by (induction xs) auto

lemma subseq_rev_dropWhile: "subseq (rev (dropWhile P (rev xs))) xs"
proof -
  have "xs = rev (dropWhile P (rev xs)) @ rev (takeWhile P (rev xs))"
    by (metis rev_append rev_rev_ident takeWhile_dropWhile_id)
  then show ?thesis
    by (metis subseq_rev_drop_many subseq_order.order_refl)
qed

lemma subseq_py_strip: "subseq (py_strip s) s"
proof -
  have "subseq (py_strip s) (dropWhile py_isspace s)"
    unfolding py_strip_def by (rule subseq_rev_dropWhile)
  then show ?thesis
    using subseq_dropWhile subseq_order.order_trans by blast
qed

lemma dropWhile_id_iff: "dropWhile P xs = xs \<longleftrightarrow> (case xs of [] \<Rightarrow> True | x # _ \<Rightarrow> \<not> P x)"
proof (cases xs)
  case Nil
  then show ?thesis by simp
next
  case (Cons x ys)
  have "length (dropWhile P ys) \<le> length ys"
    by (rule length_dropWhile_le)
  then have "dropWhile P ys \<noteq> x # ys"
    by (metis Suc_n_not_le_n length_Cons)
  then show ?thesis
    using Cons by simp
qed

lemma not_starts_dropWhile: "\<not> starts_with_space (dropWhile py_isspace s)"
proof (cases "dropWhile py_isspace s")
  case Nil
  show ?thesis unfolding starts_with_space_def Nil by simp
next
  case (Cons c cs)
  then have "\<not> py_isspace c"
    using hd_dropWhile [of py_isspace s] by auto
  with Cons show ?thesis by (simp add: starts_with_space_def)
qed

lemma starts_with_space_rev_dropWhile:
  assumes "\<not> starts_with_space s"
  shows "\<not> starts_with_space (rev (dropWhile py_isspace (rev s)))"
proof (cases "\<forall>c \<in> set s. py_isspace c")
  case True
  then have e: "dropWhile py_isspace (rev s) = []"
    by simp
  show ?thesis unfolding starts_with_space_def e by simp
next
  case False
  then obtain c where c: "c \<in> set s" "\<not> py_isspace c"
    by blast
  then have ne: "dropWhile py_isspace (rev s) \<noteq> []"
    by auto
  from c obtain a as where s: "s = a # as"
    by (cases s) auto
  have "rev s = takeWhile py_isspace (rev s) @ dropWhile py_isspace (rev s)"
    by simp
  then have "s = rev (dropWhile py_isspace (rev s)) @ rev (takeWhile py_isspace (rev s))"
    by (metis rev_append rev_rev_ident)
  with ne s have "hd (rev (dropWhile py_isspace (rev s))) = a"
    by (metis hd_append2 list.sel(1) rev_is_Nil_conv)
  moreover from ne have "rev (dropWhile py_isspace (rev s)) \<noteq> []"
    by simp
  ultimately obtain bs where "rev (dropWhile py_isspace (rev s)) = a # bs"
    by (cases "rev (dropWhile py_isspace (rev s))") auto
  with assms s show ?thesis
    by (simp add: starts_with_space_def)
qed

lemma py_strip_no_leading: "\<not> starts_with_space (py_strip s)"
  unfolding py_strip_def
  by (rule starts_with_space_rev_dropWhile) (rule not_starts_dropWhile)

lemma py_strip_no_trailing: "\<not> ends_with_space (py_strip s)"
  by (simp add: ends_with_space_def py_strip_def not_starts_dropWhile)

lemma py_strip_fixed:
  assumes "\<not> starts_with_space s" and "\<not> ends_with_space s"
  shows "py_strip s = s"
proof -
  from assms(1) have "dropWhile py_isspace s = s"
    by (simp add: dropWhile_id_iff starts_with_space_def split: list.splits)
  moreover from assms(2) have "dropWhile py_isspace (rev s) = rev s"
    by (simp add: dropWhile_id_iff starts_with_space_def ends_with_space_def split: list.splits)
  ultimately show ?thesis
    by (simp add: py_strip_def)
qed

lemma py_strip_idem: "py_strip (py_strip s) = py_strip s"
  by (rule py_strip_fixed) (rule py_strip_no_leading, rule py_strip_no_trailing)

lemma sanitize_filename_filter:
  "sanitize_filename name = py_strip (filter (\<lambda>c. c \<notin> set invalid) name)"
  by (simp add: sanitize_filename_def fold_py_replace_empty)

lemma set_sanitize_filename: "set (sanitize_filename name) \<subseteq> set name - set invalid"
  using set_py_strip [of "filter (\<lambda>c. c \<notin> set invalid) name"]
  by (auto simp: sanitize_filename_filter)

lemma filter_sanitize_filename:
  "filter (\<lambda>c. c \<notin> set invalid) (sanitize_filename name) = sanitize_filename name"
  using set_sanitize_filename [of name] by (auto simp: filter_id_conv)

lemma sanitize_filename_idem:
  "sanitize_filename (sanitize_filename name) = sanitize_filename name"
proof -
  have "sanitize_filename (sanitize_filename name) = py_strip (sanitize_filename name)"
    by (simp add: sanitize_filename_filter [of "sanitize_filename name"] filter_sanitize_filename)
  also have "\<dots> = sanitize_filename name"
    by (simp add: sanitize_filename_def py_strip_idem)
  finally show ?thesis .
qed

lemma subseq_sanitize_filename: "subseq (sanitize_filename name) name"
proof -
  have "subseq (filter (\<lambda>c. c \<notin> set invalid) name) name"
    by simp
  then show ?thesis
    unfolding sanitize_filename_filter
    using subseq_py_strip subseq_order.order_trans by blast
qed

text \<open>
  C2.  For every input string the sanitizer's output contains none of the nine
  characters \<^verbatim>\<open>< > : " / \ | ? *\<close>, neither starts nor ends with whitespace, is obtained
  from the input by deleting characters only (so it holds no character the input does
  not hold), and is a fixed point of the sanitizer.
\<close>

theorem sanitize_filename_correct:
  "set (sanitize_filename name) \<inter> set invalid = {}
   \<and> set invalid = set (str ''<>:/|?*'') \<union> {0x22, 0x5C}
   \<and> \<not> starts_with_space (sanitize_filename name)
   \<and> \<not> ends_with_space (sanitize_filename name)
   \<and> subseq (sanitize_filename name) name
   \<and> set (sanitize_filename name) \<subseteq> set name
   \<and> sanitize_filename (sanitize_filename name) = sanitize_filename name"
proof -
  have "set (sanitize_filename name) \<inter> set invalid = {}"
    using set_sanitize_filename [of name] by blast
  moreover have "set invalid = set (str ''<>:/|?*'') \<union> {0x22, 0x5C}"
    by (auto simp: invalid_def)
  moreover have "\<not> starts_with_space (sanitize_filename name)"
    by (simp add: sanitize_filename_def py_strip_no_leading)
  moreover have "\<not> ends_with_space (sanitize_filename name)"
    by (simp add: sanitize_filename_def py_strip_no_trailing)
  moreover have "set (sanitize_filename name) \<subseteq> set name"
    using set_sanitize_filename [of name] by blast
  ultimately show ?thesis
    using subseq_sanitize_filename sanitize_filename_idem by blast
qed

theorem sanitize_filename_correct_witness:
  "sanitize_filename (str '' <Re:Zero>  */?'') = str ''ReZero''
   \<and> set (str ''ReZero'') \<inter> set invalid = {}
   \<and> \<not> starts_with_space (str ''ReZero'')
   \<and> \<not> ends_with_space (str ''ReZero'')
   \<and> subseq (str ''ReZero'') (str '' <Re:Zero>  */?'')
   \<and> sanitize_filename (str ''ReZero'') = str ''ReZero''"
proof -
  have e: "sanitize_filename (str '' <Re:Zero>  */?'') = str ''ReZero''"
    by (simp add: sanitize_filename_def invalid_def py_replace_empty_def py_strip_def py_isspace_def)
  show ?thesis
    using sanitize_filename_correct [of "str '' <Re:Zero>  */?''"] unfolding e
    by (simp add: e)
qed

section \<open>The query\<close>

lemma re_match_lazy_close:
  "re_match [LazyStar Dot, One (InSet (str '')]''))] s = span_end s"
  by (induction s) auto

lemma re_match_span_pattern:
  "re_match span_pattern (c # cs) = (if c \<in> set (str ''(['') then span_end cs else None)"
  unfolding span_pattern_def
  by (simp only: re_match.simps atom_matches.simps re_match_lazy_close)

lemma re_sub_empty_span_pattern: "re_sub_empty span_pattern s = remove_spans s"
proof (induction s rule: remove_spans.induct)
  case 1
  show ?case by simp
next
  case (2 c cs)
  show ?case
  proof (cases "c \<in> set (str ''(['')")
    case False
    with 2 show ?thesis
      by (simp add: re_match_span_pattern del: re_match.simps)
  next
    case True
    show ?thesis
    proof (cases "span_end cs")
      case None
      with True 2 show ?thesis
        by (simp add: re_match_span_pattern del: re_match.simps)
    next
      case (Some rest)
      with True 2 show ?thesis
        by (simp add: re_match_span_pattern del: re_match.simps)
    qed
  qed
qed

text \<open>
  C3, as the code has it.  When the text of the override entry is not empty after
  trimming, the query is that text trimmed (not the text as typed), whatever the folder
  name and the checkbox.  Otherwise, with the checkbox set, the query is the folder
  name from which every span is removed, scanning from the left: an opening
  parenthesis or bracket, then the characters up to the first closing parenthesis or
  bracket, provided no newline stands before it; the result is trimmed.  With the
  checkbox unset the query is the folder name unchanged.
\<close>

theorem fetch_candidates_query_cases:
  "fetch_candidates_query disregard entry folder_name =
     (if py_strip entry \<noteq> [] then py_strip entry
      else if disregard then py_strip (remove_spans folder_name)
      else folder_name)"
  by (simp add: fetch_candidates_query_def re_sub_empty_span_pattern)

theorem fetch_candidates_query_cases_witness:
  "fetch_candidates_query True [] (str ''Attack on Titan (2013) [BD]'') = str ''Attack on Titan''
   \<and> py_strip (remove_spans (str ''Attack on Titan (2013) [BD]'')) = str ''Attack on Titan''
   \<and> fetch_candidates_query False [] (str ''Attack on Titan (2013) [BD]'')
       = str ''Attack on Titan (2013) [BD]''
   \<and> fetch_candidates_query True (str '' Shingeki no Kyojin'') (str ''Attack on Titan (2013) [BD]'')
       = str ''Shingeki no Kyojin''"
proof -
  have a: "remove_spans (str ''Attack on Titan (2013) [BD]'') = str ''Attack on Titan  ''"
    by simp
  have b: "py_strip (str ''Attack on Titan  '') = str ''Attack on Titan''"
    by (simp add: py_strip_def py_isspace_def)
  have c: "py_strip [] = []"
    by (simp add: py_strip_def)
  have d: "py_strip (str '' Shingeki no Kyojin'') = str ''Shingeki no Kyojin''"
    by (simp add: py_strip_def py_isspace_def)
  show ?thesis
    using fetch_candidates_query_cases [of True "[]" "str ''Attack on Titan (2013) [BD]''"]
      fetch_candidates_query_cases [of False "[]" "str ''Attack on Titan (2013) [BD]''"]
      fetch_candidates_query_cases [of True "str '' Shingeki no Kyojin''"
        "str ''Attack on Titan (2013) [BD]''"]
    unfolding a b c d by simp
qed

text \<open>
  C3 as stated fails twice.  An override typed with a leading space is not empty after
  trimming, and the query is not that override as typed.  And a parenthesized span
  that holds a newline is not removed from the folder name.
\<close>

theorem fetch_candidates_query_verbatim_counterexample:
  "py_strip (str '' Shingeki no Kyojin'') \<noteq> []
   \<and> fetch_candidates_query True (str '' Shingeki no Kyojin'') (str ''Attack on Titan'')
       \<noteq> str '' Shingeki no Kyojin''
   \<and> fetch_candidates_query True [] (str ''Show (part'' @ [10] @ str ''two) x'')
       = str ''Show (part'' @ [10] @ str ''two) x''"
proof -
  have a: "py_strip (str '' Shingeki no Kyojin'') = str ''Shingeki no Kyojin''"
    by (simp add: py_strip_def py_isspace_def)
  have b: "remove_spans (str ''Show (part'' @ [10] @ str ''two) x'')
       = str ''Show (part'' @ [10] @ str ''two) x''"
    by simp
  have c: "py_strip (str ''Show (part'' @ [10] @ str ''two) x'')
       = str ''Show (part'' @ [10] @ str ''two) x''"
    by (simp add: py_strip_def py_isspace_def)
  have d: "py_strip [] = []"
    by (simp add: py_strip_def)
  have 1: "py_strip (str '' Shingeki no Kyojin'') \<noteq> []"
    unfolding a by simp
  have 2: "fetch_candidates_query True (str '' Shingeki no Kyojin'') (str ''Attack on Titan'')
       = str ''Shingeki no Kyojin''"
    unfolding fetch_candidates_query_def Let_def a by simp
  have 3: "fetch_candidates_query True [] (str ''Show (part'' @ [10] @ str ''two) x'')
       = str ''Show (part'' @ [10] @ str ''two) x''"
    unfolding fetch_candidates_query_def Let_def re_sub_empty_span_pattern d b c by simp
  from 1 2 3 show ?thesis by simp
qed

section \<open>The ranking of the candidates\<close>

lemma py_sorted_reverse_stable:
  "filter (\<lambda>a. k a = y) (py_sorted_reverse k xs) = filter (\<lambda>a. k a = y) xs"
proof -
  have "filter (\<lambda>a. k a = y) (py_sorted_reverse k xs)
      = rev (filter (\<lambda>a. k a = y) (sort_key k (rev xs)))"
    by (simp add: py_sorted_reverse_def rev_filter)
  also have "\<dots> = rev (filter (\<lambda>a. k a = y) (rev xs))"
    by (simp only: sort_key_stable)
  also have "\<dots> = filter (\<lambda>a. k a = y) xs"
    by (simp add: rev_filter)
  finally show ?thesis .
qed

lemma py_sorted_reverse_descending:
  "sorted_wrt (\<lambda>a b. k a \<ge> k b) (py_sorted_reverse k xs)"
proof -
  have "sorted (map k (sort_key k (rev xs)))"
    by (rule sorted_sort_key)
  then have "sorted_wrt (\<lambda>a b. k a \<le> k b) (sort_key k (rev xs))"
    by (simp add: sorted_map)
  then show ?thesis
    by (simp add: py_sorted_reverse_def sorted_wrt_rev)
qed

lemma mset_py_sorted_reverse: "mset (py_sorted_reverse k xs) = mset xs"
  by (simp add: py_sorted_reverse_def)

lemma year_key_cases: "year_key a = (case startDate_year a of None \<Rightarrow> 0 | Some y \<Rightarrow> y)"
  by (cases "startDate_year a") (simp_all add: year_key_def)

lemma missing_year_last:
  assumes "sorted_wrt (\<lambda>a b. year_key a \<ge> year_key b) r"
    and "i < j" and "j < length r" and "startDate_year (r ! i) = None"
  shows "year_key (r ! j) \<le> 0"
proof -
  from assms(1-3) have "year_key (r ! i) \<ge> year_key (r ! j)"
    by (simp add: sorted_wrt_iff_nth_less)
  moreover from assms(4) have "year_key (r ! i) = 0"
    by (simp add: year_key_def)
  ultimately show ?thesis by simp
qed

text \<open>
  C4.  On every list of candidates the post-processing of \<^verbatim>\<open>fetch_candidates\<close> gives
  the first five entries of the list sorted by \<^verbatim>\<open>sorted(..., reverse=True)\<close> on the
  key \<open>year_key\<close>, which is the year, and 0 when the year is missing.  The sorted list
  is a permutation of the input in descending order of the key; behind an entry with no
  year no entry has a positive key, so the entries with no year come after all those
  with a year above 0; and the entries of any one key keep the order they had in the
  input.  At most five entries remain.
\<close>

theorem fetch_candidates_rank_sorted:
  "fetch_candidates_rank (Some cs) = Some (take 5 (py_sorted_reverse year_key cs))
   \<and> year_key a = (case startDate_year a of None \<Rightarrow> 0 | Some y \<Rightarrow> y)
   \<and> mset (py_sorted_reverse year_key cs) = mset cs
   \<and> sorted_wrt (\<lambda>a b. year_key a \<ge> year_key b) (py_sorted_reverse year_key cs)
   \<and> (\<forall>i j. i < j \<longrightarrow> j < length cs \<longrightarrow>
          startDate_year (py_sorted_reverse year_key cs ! i) = None \<longrightarrow>
          year_key (py_sorted_reverse year_key cs ! j) \<le> 0)
   \<and> filter (\<lambda>a. year_key a = y) (py_sorted_reverse year_key cs)
       = filter (\<lambda>a. year_key a = y) cs
   \<and> length (the (fetch_candidates_rank (Some cs))) \<le> 5"
proof (intro conjI)
  show 1: "fetch_candidates_rank (Some cs) = Some (take 5 (py_sorted_reverse year_key cs))"
    by (cases cs) (simp_all add: py_sorted_reverse_def)
  show "year_key a = (case startDate_year a of None \<Rightarrow> 0 | Some y \<Rightarrow> y)"
    by (rule year_key_cases)
  show "mset (py_sorted_reverse year_key cs) = mset cs"
    by (rule mset_py_sorted_reverse)
  show "sorted_wrt (\<lambda>a b. year_key a \<ge> year_key b) (py_sorted_reverse year_key cs)"
    by (rule py_sorted_reverse_descending)
  show "\<forall>i j. i < j \<longrightarrow> j < length cs \<longrightarrow>
          startDate_year (py_sorted_reverse year_key cs ! i) = None \<longrightarrow>
          year_key (py_sorted_reverse year_key cs ! j) \<le> 0"
  proof (intro allI impI)
    fix i j
    assume "i < j" and "j < length cs"
      and "startDate_year (py_sorted_reverse year_key cs ! i) = None"
    moreover have "length (py_sorted_reverse year_key cs) = length cs"
      by (simp add: py_sorted_reverse_def)
    ultimately show "year_key (py_sorted_reverse year_key cs ! j) \<le> 0"
      using missing_year_last [OF py_sorted_reverse_descending [of year_key cs], of i j] by simp
  qed
  show "filter (\<lambda>a. year_key a = y) (py_sorted_reverse year_key cs)
       = filter (\<lambda>a. year_key a = y) cs"
    by (rule py_sorted_reverse_stable)
  show "length (the (fetch_candidates_rank (Some cs))) \<le> 5"
    unfolding 1 by simp
qed

lemma sample_sorted:
  "py_sorted_reverse year_key sample
     = [candidate 3 ''C'' [] (Some 2020), candidate 7 ''G'' [] (Some 2020),
        candidate 2 ''B'' [] (Some 2013), candidate 4 ''D'' [] (Some 2013),
        candidate 6 ''F'' [] (Some 1998), candidate 1 ''A'' [] None,
        candidate 5 ''E'' [] None]"
proof -
  have k: "year_key (candidate i r e None) = 0" "year_key (candidate i r e (Some 2013)) = 2013"
    "year_key (candidate i r e (Some 2020)) = 2020" "year_key (candidate i r e (Some 1998)) = 1998"
    for i r e
    by (simp_all add: year_key_def candidate_def)
  show ?thesis
    unfolding sample_def py_sorted_reverse_def by (simp add: k)
qed

theorem fetch_candidates_rank_sorted_witness:
  "map anime_id (the (fetch_candidates_rank (Some sample))) = [3, 7, 2, 4, 6]
   \<and> map anime_id (py_sorted_reverse year_key sample) = [3, 7, 2, 4, 6, 1, 5]
   \<and> startDate_year (py_sorted_reverse year_key sample ! 5) = None
   \<and> year_key (py_sorted_reverse year_key sample ! 6) \<le> 0
   \<and> length (the (fetch_candidates_rank (Some sample))) \<le> 5"
proof -
  note t = fetch_candidates_rank_sorted [where cs = sample and a = "candidate 1 ''A'' [] None" and y = 0]
  have ids: "map anime_id (py_sorted_reverse year_key sample) = [3, 7, 2, 4, 6, 1, 5]"
    unfolding sample_sorted by (simp add: candidate_def)
  have none: "startDate_year (py_sorted_reverse year_key sample ! 5) = None"
    unfolding sample_sorted by (simp add: candidate_def)
  have l: "length sample = 7"
    by (simp add: sample_def)
  from t have r: "fetch_candidates_rank (Some sample) = Some (take 5 (py_sorted_reverse year_key sample))"
    by (rule conjunct1)
  from t have q: "\<forall>i j. i < j \<longrightarrow> j < length sample \<longrightarrow>
          startDate_year (py_sorted_reverse year_key sample ! i) = None \<longrightarrow>
          year_key (py_sorted_reverse year_key sample ! j) \<le> 0"
    by (rule conjunct2 [THEN conjunct2, THEN conjunct2, THEN conjunct2, THEN conjunct1])
  from q have "5 < (6::nat) \<longrightarrow> 6 < length sample \<longrightarrow>
          startDate_year (py_sorted_reverse year_key sample ! 5) = None \<longrightarrow>
          year_key (py_sorted_reverse year_key sample ! 6) \<le> 0"
    by (elim allE)
  with none l have last: "year_key (py_sorted_reverse year_key sample ! 6) \<le> 0"
    by simp
  have "map anime_id (the (fetch_candidates_rank (Some sample)))
      = take 5 (map anime_id (py_sorted_reverse year_key sample))"
    unfolding r by (simp add: take_map)
  then have top: "map anime_id (the (fetch_candidates_rank (Some sample))) = [3, 7, 2, 4, 6]"
    unfolding ids by simp
  from top have "length (map anime_id (the (fetch_candidates_rank (Some sample))))
      = length [3, 7, 2, 4, 6 :: int]"
    by (rule arg_cong)
  then have "length (the (fetch_candidates_rank (Some sample))) \<le> 5"
    by simp
  with top ids none last show ?thesis by simp
qed

section \<open>The metadata search\<close>

lemma search_anime_sent: "sent (search_anime post query) = [anilist_request query]"
  by (cases "search_anime_try post query") (simp_all add: search_anime_def)

lemma search_anime_caught:
  "search_anime_try post query = Inl e \<Longrightarrow>
     outcome (search_anime post query) = Inr (Some []) \<and>
     printed (search_anime post query) = [(query, e)]"
  by (simp add: search_anime_def)

lemma search_anime_passed:
  "search_anime_try post query = Inr v \<Longrightarrow>
     outcome (search_anime post query) = Inr v \<and> printed (search_anime post query) = []"
  by (simp add: search_anime_def)

lemma search_anime_try_raises:
  "post (anilist_request query) = PostRaises e \<Longrightarrow> search_anime_try post query = Inl e"
  "post (anilist_request query) = Response status body \<Longrightarrow> 400 \<le> status \<Longrightarrow> status < 600 \<Longrightarrow>
     search_anime_try post query = Inl HTTPError"
  "post (anilist_request query) = Response status NotJson \<Longrightarrow> \<not> (400 \<le> status \<and> status < 600) \<Longrightarrow>
     search_anime_try post query = Inl JSONDecodeError"
  "post (anilist_request query) = Response status NotObject \<Longrightarrow> \<not> (400 \<le> status \<and> status < 600) \<Longrightarrow>
     search_anime_try post query = Inl AttributeError"
  by (simp_all add: search_anime_try_def)

text \<open>
  C6.  For every query and every behaviour of the network, \<open>search_anime\<close> issues one
  request, which carries the query, and returns a value to its caller: no exception
  leaves it.  When the body of the \<^verbatim>\<open>try\<close> raises, the value is the empty list and one
  line is printed with the query and the exception.  The body raises when the transport
  raises, when the status is an error status (400 to 599), when the body is no JSON and
  when the JSON is no object.  When the body of the \<^verbatim>\<open>try\<close> returns, nothing is
  printed and that value is returned.
\<close>

theorem search_anime_fails_soft:
  "sent (search_anime post query) = [anilist_request query]
   \<and> length (sent (search_anime post query)) = 1
   \<and> req_search (anilist_request query) = query
   \<and> (\<exists>v. outcome (search_anime post query) = Inr v)
   \<and> (\<forall>e. search_anime_try post query = Inl e \<longrightarrow>
         outcome (search_anime post query) = Inr (Some []) \<and>
         printed (search_anime post query) = [(query, e)])
   \<and> (\<forall>v. search_anime_try post query = Inr v \<longrightarrow>
         outcome (search_anime post query) = Inr v \<and> printed (search_anime post query) = [])
   \<and> (\<forall>e. post (anilist_request query) = PostRaises e \<longrightarrow>
         search_anime_try post query = Inl e)
   \<and> (\<forall>status body. post (anilist_request query) = Response status body \<longrightarrow>
         400 \<le> status \<longrightarrow> status < 600 \<longrightarrow> search_anime_try post query = Inl HTTPError)
   \<and> (\<forall>status. post (anilist_request query) = Response status NotJson \<longrightarrow>
         \<not> (400 \<le> status \<and> status < 600) \<longrightarrow> search_anime_try post query = Inl JSONDecodeError)
   \<and> (\<forall>status. post (anilist_request query) = Response status NotObject \<longrightarrow>
         \<not> (400 \<le> status \<and> status < 600) \<longrightarrow> search_anime_try post query = Inl AttributeError)"
proof (intro conjI)
  show "sent (search_anime post query) = [anilist_request query]"
    by (rule search_anime_sent)
  show "length (sent (search_anime post query)) = 1"
    by (simp add: search_anime_sent)
  show "req_search (anilist_request query) = query"
    by (simp add: anilist_request_def)
  show "\<exists>v. outcome (search_anime post query) = Inr v"
    by (cases "search_anime_try post query") (simp_all add: search_anime_def)
  show "\<forall>e. search_anime_try post query = Inl e \<longrightarrow>
         outcome (search_anime post query) = Inr (Some []) \<and>
         printed (search_anime post query) = [(query, e)]"
    using search_anime_caught by blast
  show "\<forall>v. search_anime_try post query = Inr v \<longrightarrow>
         outcome (search_anime post query) = Inr v \<and> printed (search_anime post query) = []"
    using search_anime_passed by blast
  show "\<forall>e. post (anilist_request query) = PostRaises e \<longrightarrow>
         search_anime_try post query = Inl e"
    using search_anime_try_raises(1) by blast
  show "\<forall>status body. post (anilist_request query) = Response status body \<longrightarrow>
         400 \<le> status \<longrightarrow> status < 600 \<longrightarrow> search_anime_try post query = Inl HTTPError"
    using search_anime_try_raises(2) by blast
  show "\<forall>status. post (anilist_request query) = Response status NotJson \<longrightarrow>
         \<not> (400 \<le> status \<and> status < 600) \<longrightarrow> search_anime_try post query = Inl JSONDecodeError"
    using search_anime_try_raises(3) by blast
  show "\<forall>status. post (anilist_request query) = Response status NotObject \<longrightarrow>
         \<not> (400 \<le> status \<and> status < 600) \<longrightarrow> search_anime_try post query = Inl AttributeError"
    using search_anime_try_raises(4) by blast
qed

theorem search_anime_fails_soft_witness:
  "outcome (search_anime (\<lambda>_. PostRaises ConnectionError) (str ''Naruto'')) = Inr (Some [])
   \<and> printed (search_anime (\<lambda>_. PostRaises ConnectionError) (str ''Naruto''))
       = [(str ''Naruto'', ConnectionError)]
   \<and> outcome (search_anime (\<lambda>_. Response 503 NotJson) (str ''Naruto'')) = Inr (Some [])
   \<and> outcome (search_anime (\<lambda>_. Response 200 NotJson) (str ''Naruto'')) = Inr (Some [])
   \<and> outcome (search_anime (\<lambda>_. Response 200 NotObject) (str ''Naruto'')) = Inr (Some [])
   \<and> outcome (search_anime
        (\<lambda>_. Response 200 (Object (Value (Value (Value [candidate 20 ''Naruto'' ''Naruto'' (Some 2002)])))))
        (str ''Naruto'')) = Inr (Some [candidate 20 ''Naruto'' ''Naruto'' (Some 2002)])
   \<and> length (sent (search_anime (\<lambda>_. PostRaises ConnectionError) (str ''Naruto''))) = 1"
proof -
  note a = search_anime_fails_soft [of "\<lambda>_. PostRaises ConnectionError" "str ''Naruto''"]
  note b = search_anime_fails_soft [of "\<lambda>_. Response 503 NotJson" "str ''Naruto''"]
  note c = search_anime_fails_soft [of "\<lambda>_. Response 200 NotJson" "str ''Naruto''"]
  note d = search_anime_fails_soft [of "\<lambda>_. Response 200 NotObject" "str ''Naruto''"]
  note e = search_anime_fails_soft [of
      "\<lambda>_. Response 200 (Object (Value (Value (Value [candidate 20 ''Naruto'' ''Naruto'' (Some 2002)]))))"
      "str ''Naruto''"]
  have e': "search_anime_try
      (\<lambda>_. Response 200 (Object (Value (Value (Value [candidate 20 ''Naruto'' ''Naruto'' (Some 2002)])))))
      (str ''Naruto'') = Inr (Some [candidate 20 ''Naruto'' ''Naruto'' (Some 2002)])"
    by (simp add: search_anime_try_def)
  from a have "outcome (search_anime (\<lambda>_. PostRaises ConnectionError) (str ''Naruto'')) = Inr (Some [])
    \<and> printed (search_anime (\<lambda>_. PostRaises ConnectionError) (str ''Naruto''))
       = [(str ''Naruto'', ConnectionError)]
    \<and> length (sent (search_anime (\<lambda>_. PostRaises ConnectionError) (str ''Naruto''))) = 1"
    by simp
  moreover from b have "outcome (search_anime (\<lambda>_. Response 503 NotJson) (str ''Naruto'')) = Inr (Some [])"
    by simp
  moreover from c have "outcome (search_anime (\<lambda>_. Response 200 NotJson) (str ''Naruto'')) = Inr (Some [])"
    by simp
  moreover from d have "outcome (search_anime (\<lambda>_. Response 200 NotObject) (str ''Naruto'')) = Inr (Some [])"
    by simp
  moreover from e e' have "outcome (search_anime
        (\<lambda>_. Response 200 (Object (Value (Value (Value [candidate 20 ''Naruto'' ''Naruto'' (Some 2002)])))))
        (str ''Naruto'')) = Inr (Some [candidate 20 ''Naruto'' ''Naruto'' (Some 2002)])"
    by simp
  ultimately show ?thesis by simp
qed

section \<open>The selection of a candidate\<close>

lemma get_new_name_none:
  "selected_candidates s folder = None \<Longrightarrow> get_new_name s folder = Inr None"
  by (simp add: get_new_name_def)

lemma get_new_name_out_of_range:
  assumes "selected_candidates s folder = Some i"
    and "(case folder_candidates s folder of None \<Rightarrow> Some [] | Some v \<Rightarrow> v) = Some cs"
    and "length cs \<le> i"
  shows "get_new_name s folder = Inr None"
  using assms by (simp add: get_new_name_def Let_def)

lemma get_new_name_valid:
  assumes "selected_candidates s folder = Some i"
    and "folder_candidates s folder = Some (Some cs)"
    and "i < length cs"
    and "py_or_str (title_english (cs ! i)) (title_romaji (cs ! i)) = Some title"
  shows "get_new_name s folder =
     Inr (Some (sanitize_filename
       (title @ (if truthy_int (startDate_year (cs ! i))
                 then str '' ('' @ str_int (the (startDate_year (cs ! i))) @ str '')''
                 else []))))"
  using assms by (simp add: get_new_name_def Let_def format_str_def)

lemma candidate_selected_index_error:
  "length (folders s) \<le> current_index s \<Longrightarrow>
     candidate_selected os s index = s\<lparr>uncaught := uncaught s @ [IndexError]\<rparr>"
  by (simp add: candidate_selected_def)

lemma candidate_selected_no_name:
  assumes "current_index s < length (folders s)"
    and "folder_name = folders s ! current_index s"
    and "s1 = s\<lparr>selected_candidates := (selected_candidates s)(folder_name \<mapsto> index)\<rparr>"
    and "get_new_name s1 folder_name = Inr new_name"
    and "\<not> truthy_str new_name"
  shows "candidate_selected os s index = s1\<lparr>dialogs := dialogs s @ [CouldNotDetermine folder_name]\<rparr>"
  using assms by (simp add: candidate_selected_def Let_def)

lemma candidate_selected_conflict:
  assumes "current_index s < length (folders s)"
    and "folder_name = folders s ! current_index s"
    and "s1 = s\<lparr>selected_candidates := (selected_candidates s)(folder_name \<mapsto> index)\<rparr>"
    and "get_new_name s1 folder_name = Inr (Some new_name)"
    and "new_name \<noteq> []"
    and "folder_paths s folder_name = Some old_path"
    and "os_path_exists os (filesystem s) (os_path_join os (directory s) new_name)"
  shows "candidate_selected os s index = s1\<lparr>dialogs := dialogs s @ [Conflict new_name]\<rparr>"
  using assms by (simp add: candidate_selected_def Let_def)

lemma candidate_selected_rename_raises:
  assumes "current_index s < length (folders s)"
    and "folder_name = folders s ! current_index s"
    and "s1 = s\<lparr>selected_candidates := (selected_candidates s)(folder_name \<mapsto> index)\<rparr>"
    and "get_new_name s1 folder_name = Inr (Some new_name)"
    and "new_name \<noteq> []"
    and "folder_paths s folder_name = Some old_path"
    and "new_path = os_path_join os (directory s) new_name"
    and "\<not> os_path_exists os (filesystem s) new_path"
    and "os_rename os (filesystem s) old_path new_path = Inl e"
  shows "candidate_selected os s index =
     s1\<lparr>renames := renames s @ [(old_path, new_path)],
        dialogs := dialogs s @ [ErrorRenaming folder_name e]\<rparr>"
  using assms by (simp add: candidate_selected_def Let_def)

lemma candidate_selected_renamed:
  assumes "current_index s < length (folders s)"
    and "folder_name = folders s ! current_index s"
    and "s1 = s\<lparr>selected_candidates := (selected_candidates s)(folder_name \<mapsto> index)\<rparr>"
    and "get_new_name s1 folder_name = Inr (Some new_name)"
    and "new_name \<noteq> []"
    and "folder_paths s folder_name = Some old_path"
    and "new_path = os_path_join os (directory s) new_name"
    and "\<not> os_path_exists os (filesystem s) new_path"
    and "os_rename os (filesystem s) old_path new_path = Inr fs'"
  shows "candidate_selected os s index =
     next_folder (s1\<lparr>filesystem := fs', renames := renames s @ [(old_path, new_path)]\<rparr>)"
  using assms by (simp add: candidate_selected_def Let_def)

lemmas run_defs =
  demo_def found_def init_def select_directory_def load_folders_def load_item_def
  show_current_folder_def fetch_candidates_def show_candidates_def search_anime_def
  search_anime_try_def fetch_candidates_query_def re_sub_empty_span_pattern
  py_strip_def py_isspace_def Let_def
  flat_os_def readonly_os_def flat_listdir_def flat_rename_def posix_join_def
  fs_a_def fs_b_def

lemma demo_flat_a:
  "current_index (demo flat_os fs_a cs) = 0"
  "folders (demo flat_os fs_a cs) = [str ''AoT [BD]'', str ''Naruto'']"
  "directory (demo flat_os fs_a cs) = str ''/a''"
  "filesystem (demo flat_os fs_a cs) = fs_a"
  "renames (demo flat_os fs_a cs) = []"
  "dialogs (demo flat_os fs_a cs) = []"
  "folder_paths (demo flat_os fs_a cs) (str ''AoT [BD]'') = Some (str ''/a/AoT [BD]'')"
  "folder_candidates (demo flat_os fs_a cs) (str ''AoT [BD]'') = Some (fetch_candidates_rank (Some cs))"
  by (simp_all add: run_defs)

lemma demo_flat_b:
  "current_index (demo flat_os fs_b cs) = 0"
  "folders (demo flat_os fs_b cs) = [str ''AoT [BD]'', str ''Attack on Titan (2013)'', str ''Naruto'']"
  "directory (demo flat_os fs_b cs) = str ''/a''"
  "filesystem (demo flat_os fs_b cs) = fs_b"
  "renames (demo flat_os fs_b cs) = []"
  "dialogs (demo flat_os fs_b cs) = []"
  "folder_paths (demo flat_os fs_b cs) (str ''AoT [BD]'') = Some (str ''/a/AoT [BD]'')"
  "folder_candidates (demo flat_os fs_b cs) (str ''AoT [BD]'') = Some (fetch_candidates_rank (Some cs))"
  by (simp_all add: run_defs)

lemma demo_readonly_a:
  "current_index (demo readonly_os fs_a cs) = 0"
  "folders (demo readonly_os fs_a cs) = [str ''AoT [BD]'', str ''Naruto'']"
  "directory (demo readonly_os fs_a cs) = str ''/a''"
  "filesystem (demo readonly_os fs_a cs) = fs_a"
  "renames (demo readonly_os fs_a cs) = []"
  "dialogs (demo readonly_os fs_a cs) = []"
  "folder_paths (demo readonly_os fs_a cs) (str ''AoT [BD]'') = Some (str ''/a/AoT [BD]'')"
  "folder_candidates (demo readonly_os fs_a cs) (str ''AoT [BD]'') = Some (fetch_candidates_rank (Some cs))"
  by (simp_all add: run_defs)

lemma rank_single: "fetch_candidates_rank (Some [c]) = Some [c]"
  by (simp add: py_sorted_reverse_def)

lemma aot_fields:
  "title_english aot = Some (str ''Attack on Titan'')"
  "title_romaji aot = Some (str ''Shingeki no Kyojin'')"
  "startDate_year aot = Some 2013"
  by (simp_all add: aot_def candidate_def)



text \<open>
  Where the entry of a folder in \<open>folder_candidates\<close> is missing or is a list:
  \<open>get_new_name\<close> returns \<^verbatim>\<open>None\<close> for a folder with no index recorded, and for a
  folder whose recorded index is not below the length of its candidate list (the empty
  list when no search has stored one).  When the user picks, for the current folder, an
  index that is not below the length of that list, \<open>candidate_selected\<close> opens the
  error dialog and does nothing else: \<^verbatim>\<open>os.rename\<close> is not called, the file system is
  as before and the walk index has not moved.
\<close>

theorem no_valid_selection_is_an_error:
  fixes s :: "'fs wizard"
  assumes "current_index s < length (folders s)"
    and "folder_name = folders s ! current_index s"
    and "s1 = s\<lparr>selected_candidates := (selected_candidates s)(folder_name \<mapsto> index)\<rparr>"
    and "(case folder_candidates s folder_name of None \<Rightarrow> Some [] | Some v \<Rightarrow> v) = Some cs"
    and "length cs \<le> index"
    and "t = candidate_selected os s index"
  shows "get_new_name s1 folder_name = Inr None
    \<and> t = s1\<lparr>dialogs := dialogs s @ [CouldNotDetermine folder_name]\<rparr>
    \<and> dialogs t = dialogs s @ [CouldNotDetermine folder_name]
    \<and> renames t = renames s
    \<and> filesystem t = filesystem s
    \<and> current_index t = current_index s
    \<and> threads t = threads s
    \<and> (\<forall>(u :: 'fs wizard) folder.
          selected_candidates u folder = None \<longrightarrow> get_new_name u folder = Inr None)"
proof -
  from assms(3) have sel: "selected_candidates s1 folder_name = Some index"
    and fc: "folder_candidates s1 folder_name = folder_candidates s folder_name"
    by simp_all
  have none: "get_new_name s1 folder_name = Inr None"
    using get_new_name_out_of_range [OF sel _ assms(5)] fc assms(4) by simp
  have t: "t = s1\<lparr>dialogs := dialogs s @ [CouldNotDetermine folder_name]\<rparr>"
    unfolding assms(6)
    by (rule candidate_selected_no_name [OF assms(1,2,3) none]) simp
  have "\<forall>(u :: 'fs wizard) folder.
          selected_candidates u folder = None \<longrightarrow> get_new_name u folder = Inr None"
    by (simp add: get_new_name_none)
  with none t show ?thesis
    unfolding t assms(3) by simp
qed

lemma late_fields:
  "current_index late = 1"
  "folders late = [str ''AoT [BD]'', str ''Naruto'']"
  "folder_label late = str ''Folder: Naruto''"
  "candidates_panel late = Buttons [aot]"
  "current_candidates late = Some [aot]"
  "folder_candidates late (str ''Naruto'') = None"
  "folder_candidates late (str ''AoT [BD]'') = Some (Some [aot])"
  "filesystem late = fs_a"
  "renames late = []"
  "dialogs late = []"
  "threads late = [str ''AoT [BD]'', str ''Naruto'']"
  by (simp_all add: late_def run_defs skip_folder_def next_folder_def py_sorted_reverse_def)

theorem no_valid_selection_is_an_error_witness:
  "candidates_panel late = Buttons [aot]
   \<and> step flat_os late (ClickCandidate 0) = candidate_selected flat_os late 0
   \<and> dialogs (candidate_selected flat_os late 0) = [CouldNotDetermine (str ''Naruto'')]
   \<and> renames (candidate_selected flat_os late 0) = []
   \<and> filesystem (candidate_selected flat_os late 0) = fs_a
   \<and> current_index (candidate_selected flat_os late 0) = 1"
proof -
  have h1: "current_index late < length (folders late)"
    unfolding late_fields by simp
  have h2: "str ''Naruto'' = folders late ! current_index late"
    unfolding late_fields by simp
  have h4: "(case folder_candidates late (str ''Naruto'') of None \<Rightarrow> Some [] | Some v \<Rightarrow> v) = Some []"
    unfolding late_fields by simp
  have h5: "length ([] :: anime list) \<le> 0"
    by simp
  note t = no_valid_selection_is_an_error [OF h1 h2 refl h4 h5 refl, of flat_os]
  have "step flat_os late (ClickCandidate 0) = candidate_selected flat_os late 0"
    by (simp add: late_fields)
  with t show ?thesis
    unfolding late_fields by (simp add: late_fields)
qed

lemmas click_defs =
  candidate_selected_def get_new_name_def py_or_str_def format_str_def candidate_def
  py_sorted_reverse_def sanitize_filename_def invalid_def py_replace_empty_def str_int_def
  str_nat.simps next_folder_def skip_folder_def

lemma candidate_selected_type_error:
  assumes "current_index s < length (folders s)"
    and "folder_name = folders s ! current_index s"
    and "folder_candidates s folder_name = Some None"
  shows "candidate_selected os s index
     = s\<lparr>selected_candidates := (selected_candidates s)(folder_name \<mapsto> index),
          uncaught := uncaught s @ [TypeError]\<rparr>"
  using assms by (simp add: candidate_selected_def get_new_name_def Let_def)

lemma nulled_fields:
  "folders nulled ! current_index nulled = str ''Naruto''"
  "current_index nulled = 1"
  "folder_label nulled = str ''Folder: Naruto''"
  "candidates_panel nulled = Buttons [aot]"
  "folder_candidates nulled (str ''Naruto'') = Some None"
  "uncaught nulled = []"
  by (simp_all add: nulled_def run_defs skip_folder_def next_folder_def py_sorted_reverse_def)

lemma nulled_click:
  "dialogs (step flat_os nulled (ClickCandidate 0)) = []"
  "uncaught (step flat_os nulled (ClickCandidate 0)) = [TypeError]"
  "renames (step flat_os nulled (ClickCandidate 0)) = []"
  "filesystem (step flat_os nulled (ClickCandidate 0)) = fs_a"
  "current_index (step flat_os nulled (ClickCandidate 0)) = 1"
  "selected_candidates (step flat_os nulled (ClickCandidate 0)) (str ''Naruto'') = Some 0"
  by (simp_all add: nulled_def run_defs click_defs)

text \<open>
  C8 fails where the entry of the current folder is \<^verbatim>\<open>None\<close>.  The search for the
  folder on display has stored \<^verbatim>\<open>None\<close> for it (the answer held \<^verbatim>\<open>"media": null\<close>),
  and the search for the folder skipped before has put a button on the panel.  The
  click on that button records index 0 for the folder on display, which has no
  candidate list; \<^verbatim>\<open>len(candidates)\<close> raises \<^verbatim>\<open>TypeError\<close>, which nothing catches.
  No dialog is opened.  As everywhere, \<^verbatim>\<open>os.rename\<close> is not called and the file system
  and the walk index stay as they were.
\<close>

theorem null_candidates_no_error_dialog:
  "folders nulled ! current_index nulled = str ''Naruto''
   \<and> folder_candidates nulled (str ''Naruto'') = Some None
   \<and> candidates_panel nulled = Buttons [aot]
   \<and> selected_candidates (step flat_os nulled (ClickCandidate 0)) (str ''Naruto'') = Some 0
   \<and> uncaught nulled = []
   \<and> uncaught (step flat_os nulled (ClickCandidate 0)) = [TypeError]
   \<and> dialogs (step flat_os nulled (ClickCandidate 0)) = []
   \<and> renames (step flat_os nulled (ClickCandidate 0)) = []
   \<and> filesystem (step flat_os nulled (ClickCandidate 0)) = fs_a
   \<and> current_index nulled = 1
   \<and> current_index (step flat_os nulled (ClickCandidate 0)) = 1"
  using nulled_fields nulled_click by blast

lemma demo_new_name:
  assumes "folder_candidates d f = Some (Some [aot])"
  shows "get_new_name (d\<lparr>selected_candidates := (selected_candidates d)(f \<mapsto> 0)\<rparr>) f
     = Inr (Some (str ''Attack on Titan (2013)''))"
proof -
  let ?d = "d\<lparr>selected_candidates := (selected_candidates d)(f \<mapsto> 0)\<rparr>"
  have sel: "selected_candidates ?d f = Some 0"
    by simp
  have fc: "folder_candidates ?d f = Some (Some [aot])"
    by (simp add: assms)
  have lt: "(0::nat) < length [aot]"
    by simp
  have t: "py_or_str (title_english ([aot] ! 0)) (title_romaji ([aot] ! 0))
      = Some (str ''Attack on Titan'')"
    by (simp add: py_or_str_def aot_fields)
  show ?thesis
    unfolding get_new_name_valid [OF sel fc lt t]
    by (simp add: aot_fields sanitize_filename_def invalid_def py_replace_empty_def py_strip_def
        py_isspace_def str_int_def str_nat.simps)
qed

lemma next_folder_fields:
  "current_index (next_folder s) = current_index s + 1"
  "filesystem (next_folder s) = filesystem s"
  "renames (next_folder s) = renames s"
  "dialogs (next_folder s) = dialogs s"
  "folders (next_folder s) = folders s"
  by (simp_all add: next_folder_def show_current_folder_def Let_def)

text \<open>
  C1.  Let the name computed for the picked candidate be a non-empty string, and let the
  destination be the directory joined with that name.  If the destination exists,
  \<open>candidate_selected\<close> opens the conflict dialog and nothing else happens after the
  selection was recorded: no call of \<^verbatim>\<open>os.rename\<close>, the file system and the walk index
  as before.  Otherwise \<^verbatim>\<open>os.rename\<close> is called once, from the path of the folder to the
  destination.  If it raises, the error dialog with that exception is opened, and the
  file system and the walk index are as before.  If it returns, the file system is the
  one it returns, no dialog is opened and the walk goes to the next folder.
\<close>

theorem rename_conflict_or_atomic:
  fixes s :: "'fs wizard"
  assumes "current_index s < length (folders s)"
    and "folder_name = folders s ! current_index s"
    and "s1 = s\<lparr>selected_candidates := (selected_candidates s)(folder_name \<mapsto> index)\<rparr>"
    and "get_new_name s1 folder_name = Inr (Some new_name)"
    and "new_name \<noteq> []"
    and "folder_paths s folder_name = Some old_path"
    and "new_path = os_path_join os (directory s) new_name"
    and "t = candidate_selected os s index"
  shows "(os_path_exists os (filesystem s) new_path \<longrightarrow>
           t = s1\<lparr>dialogs := dialogs s @ [Conflict new_name]\<rparr>
           \<and> dialogs t = dialogs s @ [Conflict new_name]
           \<and> renames t = renames s
           \<and> filesystem t = filesystem s
           \<and> current_index t = current_index s)
    \<and> (\<not> os_path_exists os (filesystem s) new_path \<longrightarrow>
           (\<forall>e. os_rename os (filesystem s) old_path new_path = Inl e \<longrightarrow>
              t = s1\<lparr>renames := renames s @ [(old_path, new_path)],
                    dialogs := dialogs s @ [ErrorRenaming folder_name e]\<rparr>
              \<and> dialogs t = dialogs s @ [ErrorRenaming folder_name e]
              \<and> renames t = renames s @ [(old_path, new_path)]
              \<and> filesystem t = filesystem s
              \<and> current_index t = current_index s)
         \<and> (\<forall>fs'. os_rename os (filesystem s) old_path new_path = Inr fs' \<longrightarrow>
              t = next_folder (s1\<lparr>filesystem := fs', renames := renames s @ [(old_path, new_path)]\<rparr>)
              \<and> dialogs t = dialogs s
              \<and> renames t = renames s @ [(old_path, new_path)]
              \<and> filesystem t = fs'
              \<and> current_index t = current_index s + 1))"
proof (intro conjI impI allI)
  assume ex: "os_path_exists os (filesystem s) new_path"
  then have ex': "os_path_exists os (filesystem s) (os_path_join os (directory s) new_name)"
    by (simp add: assms(7))
  show c: "t = s1\<lparr>dialogs := dialogs s @ [Conflict new_name]\<rparr>"
    unfolding assms(8) by (rule candidate_selected_conflict [OF assms(1-6) ex'])
  show "dialogs t = dialogs s @ [Conflict new_name]" "renames t = renames s"
    "filesystem t = filesystem s" "current_index t = current_index s"
    unfolding c assms(3) by simp_all
next
  fix e
  assume free: "\<not> os_path_exists os (filesystem s) new_path"
    and r: "os_rename os (filesystem s) old_path new_path = Inl e"
  show c: "t = s1\<lparr>renames := renames s @ [(old_path, new_path)],
                    dialogs := dialogs s @ [ErrorRenaming folder_name e]\<rparr>"
    unfolding assms(8) by (rule candidate_selected_rename_raises [OF assms(1-7) free r])
  show "dialogs t = dialogs s @ [ErrorRenaming folder_name e]"
    "renames t = renames s @ [(old_path, new_path)]"
    "filesystem t = filesystem s" "current_index t = current_index s"
    unfolding c assms(3) by simp_all
next
  fix fs'
  assume free: "\<not> os_path_exists os (filesystem s) new_path"
    and r: "os_rename os (filesystem s) old_path new_path = Inr fs'"
  show c: "t = next_folder (s1\<lparr>filesystem := fs', renames := renames s @ [(old_path, new_path)]\<rparr>)"
    unfolding assms(8) by (rule candidate_selected_renamed [OF assms(1-7) free r])
  show "dialogs t = dialogs s" "renames t = renames s @ [(old_path, new_path)]"
    "filesystem t = fs'" "current_index t = current_index s + 1"
    unfolding c next_folder_fields assms(3) by simp_all
qed

theorem rename_conflict_or_atomic_witness:
  "dialogs (candidate_selected flat_os (demo flat_os fs_b [aot]) 0)
     = [Conflict (str ''Attack on Titan (2013)'')]
   \<and> renames (candidate_selected flat_os (demo flat_os fs_b [aot]) 0) = []
   \<and> filesystem (candidate_selected flat_os (demo flat_os fs_b [aot]) 0) = fs_b
   \<and> current_index (candidate_selected flat_os (demo flat_os fs_b [aot]) 0) = 0
   \<and> dialogs (candidate_selected readonly_os (demo readonly_os fs_a [aot]) 0)
     = [ErrorRenaming (str ''AoT [BD]'') OSError]
   \<and> renames (candidate_selected readonly_os (demo readonly_os fs_a [aot]) 0)
     = [(str ''/a/AoT [BD]'', str ''/a/Attack on Titan (2013)'')]
   \<and> filesystem (candidate_selected readonly_os (demo readonly_os fs_a [aot]) 0) = fs_a
   \<and> current_index (candidate_selected readonly_os (demo readonly_os fs_a [aot]) 0) = 0
   \<and> dialogs (candidate_selected flat_os (demo flat_os fs_a [aot]) 0) = []
   \<and> renames (candidate_selected flat_os (demo flat_os fs_a [aot]) 0)
     = [(str ''/a/AoT [BD]'', str ''/a/Attack on Titan (2013)'')]
   \<and> filesystem (candidate_selected flat_os (demo flat_os fs_a [aot]) 0)
     = [str ''/a'', str ''/a/Attack on Titan (2013)'', str ''/a/Naruto'']
   \<and> current_index (candidate_selected flat_os (demo flat_os fs_a [aot]) 0) = 1"
proof -
  let ?name = "str ''Attack on Titan (2013)''"
  let ?b = "demo flat_os fs_b [aot]"
  let ?c = "demo readonly_os fs_a [aot]"
  let ?a = "demo flat_os fs_a [aot]"
  have ne: "?name \<noteq> []"
    by simp
  have b1: "current_index ?b < length (folders ?b)"
    unfolding demo_flat_b by simp
  have b2: "str ''AoT [BD]'' = folders ?b ! current_index ?b"
    unfolding demo_flat_b by simp
  have b4: "folder_candidates ?b (str ''AoT [BD]'') = Some (Some [aot])"
    unfolding demo_flat_b rank_single ..
  note b = rename_conflict_or_atomic [OF b1 b2 refl demo_new_name [OF b4] ne demo_flat_b(7) refl refl,
      of flat_os]
  have bex: "os_path_exists flat_os (filesystem ?b) (os_path_join flat_os (directory ?b) ?name)"
    unfolding demo_flat_b by (simp add: flat_os_def posix_join_def fs_b_def)
  from b bex have
    "dialogs (candidate_selected flat_os ?b 0) = dialogs ?b @ [Conflict ?name]
     \<and> renames (candidate_selected flat_os ?b 0) = renames ?b
     \<and> filesystem (candidate_selected flat_os ?b 0) = filesystem ?b
     \<and> current_index (candidate_selected flat_os ?b 0) = current_index ?b"
    by blast
  then have conflict:
    "dialogs (candidate_selected flat_os ?b 0) = [Conflict ?name]
     \<and> renames (candidate_selected flat_os ?b 0) = []
     \<and> filesystem (candidate_selected flat_os ?b 0) = fs_b
     \<and> current_index (candidate_selected flat_os ?b 0) = 0"
    unfolding demo_flat_b by simp
  have c1: "current_index ?c < length (folders ?c)"
    unfolding demo_readonly_a by simp
  have c2: "str ''AoT [BD]'' = folders ?c ! current_index ?c"
    unfolding demo_readonly_a by simp
  have c4: "folder_candidates ?c (str ''AoT [BD]'') = Some (Some [aot])"
    unfolding demo_readonly_a rank_single ..
  note c = rename_conflict_or_atomic [OF c1 c2 refl demo_new_name [OF c4] ne demo_readonly_a(7) refl refl,
      of readonly_os]
  have cj: "os_path_join readonly_os (directory ?c) ?name = str ''/a/Attack on Titan (2013)''"
    unfolding demo_readonly_a by (simp add: readonly_os_def flat_os_def posix_join_def)
  have cfree: "\<not> os_path_exists readonly_os (filesystem ?c) (os_path_join readonly_os (directory ?c) ?name)"
    unfolding demo_readonly_a by (simp add: readonly_os_def flat_os_def posix_join_def fs_a_def)
  have cr: "os_rename readonly_os (filesystem ?c) (str ''/a/AoT [BD]'')
      (os_path_join readonly_os (directory ?c) ?name) = Inl OSError"
    by (simp add: readonly_os_def)
  from c cfree cr have
    "dialogs (candidate_selected readonly_os ?c 0) = dialogs ?c @ [ErrorRenaming (str ''AoT [BD]'') OSError]
     \<and> renames (candidate_selected readonly_os ?c 0)
         = renames ?c @ [(str ''/a/AoT [BD]'', os_path_join readonly_os (directory ?c) ?name)]
     \<and> filesystem (candidate_selected readonly_os ?c 0) = filesystem ?c
     \<and> current_index (candidate_selected readonly_os ?c 0) = current_index ?c"
    by blast
  then have raises:
    "dialogs (candidate_selected readonly_os ?c 0) = [ErrorRenaming (str ''AoT [BD]'') OSError]
     \<and> renames (candidate_selected readonly_os ?c 0)
         = [(str ''/a/AoT [BD]'', str ''/a/Attack on Titan (2013)'')]
     \<and> filesystem (candidate_selected readonly_os ?c 0) = fs_a
     \<and> current_index (candidate_selected readonly_os ?c 0) = 0"
    unfolding cj unfolding demo_readonly_a by simp
  have a1: "current_index ?a < length (folders ?a)"
    unfolding demo_flat_a by simp
  have a2: "str ''AoT [BD]'' = folders ?a ! current_index ?a"
    unfolding demo_flat_a by simp
  have a4: "folder_candidates ?a (str ''AoT [BD]'') = Some (Some [aot])"
    unfolding demo_flat_a rank_single ..
  note a = rename_conflict_or_atomic [OF a1 a2 refl demo_new_name [OF a4] ne demo_flat_a(7) refl refl,
      of flat_os]
  have aj: "os_path_join flat_os (directory ?a) ?name = str ''/a/Attack on Titan (2013)''"
    unfolding demo_flat_a by (simp add: flat_os_def posix_join_def)
  have afree: "\<not> os_path_exists flat_os (filesystem ?a) (os_path_join flat_os (directory ?a) ?name)"
    unfolding demo_flat_a by (simp add: flat_os_def posix_join_def fs_a_def)
  have ar: "os_rename flat_os (filesystem ?a) (str ''/a/AoT [BD]'')
      (os_path_join flat_os (directory ?a) ?name)
      = Inr [str ''/a'', str ''/a/Attack on Titan (2013)'', str ''/a/Naruto'']"
    unfolding demo_flat_a by (simp add: flat_os_def flat_rename_def posix_join_def fs_a_def)
  from a afree ar have
    "dialogs (candidate_selected flat_os ?a 0) = dialogs ?a
     \<and> renames (candidate_selected flat_os ?a 0)
         = renames ?a @ [(str ''/a/AoT [BD]'', os_path_join flat_os (directory ?a) ?name)]
     \<and> filesystem (candidate_selected flat_os ?a 0)
         = [str ''/a'', str ''/a/Attack on Titan (2013)'', str ''/a/Naruto'']
     \<and> current_index (candidate_selected flat_os ?a 0) = current_index ?a + 1"
    by blast
  then have renamed:
    "dialogs (candidate_selected flat_os ?a 0) = []
     \<and> renames (candidate_selected flat_os ?a 0)
         = [(str ''/a/AoT [BD]'', str ''/a/Attack on Titan (2013)'')]
     \<and> filesystem (candidate_selected flat_os ?a 0)
         = [str ''/a'', str ''/a/Attack on Titan (2013)'', str ''/a/Naruto'']
     \<and> current_index (candidate_selected flat_os ?a 0) = 1"
    unfolding aj unfolding demo_flat_a by simp
  from conflict raises renamed show ?thesis
    by (intro conjI) (elim conjE, assumption)+
qed

lemma punct_fields:
  "title_english punct = Some (str '' ?*'')"
  "title_romaji punct = Some (str ''Nani'')"
  "startDate_year punct = None"
  by (simp_all add: punct_def candidate_def)

text \<open>
  C10.  When the picked candidate is within the candidate list of the current folder
  and its title with the year suffix sanitizes to the empty string, the computed name is
  the empty string and \<open>candidate_selected\<close> rejects it: it opens the error dialog and
  does nothing else, so \<^verbatim>\<open>os.rename\<close> is not called, the file system is as before and
  the walk index has not moved.
\<close>

theorem empty_name_is_rejected:
  fixes s :: "'fs wizard"
  assumes "current_index s < length (folders s)"
    and "folder_name = folders s ! current_index s"
    and "s1 = s\<lparr>selected_candidates := (selected_candidates s)(folder_name \<mapsto> index)\<rparr>"
    and "folder_candidates s folder_name = Some (Some cs)"
    and "index < length cs"
    and "anime = cs ! index"
    and "(if truthy_str (title_english anime) then title_english anime else title_romaji anime)
           = Some title"
    and "sanitize_filename
           (title @ (if truthy_int (startDate_year anime)
                     then str '' ('' @ str_int (the (startDate_year anime)) @ str '')''
                     else [])) = []"
    and "t = candidate_selected os s index"
  shows "get_new_name s1 folder_name = Inr (Some [])
    \<and> t = s1\<lparr>dialogs := dialogs s @ [CouldNotDetermine folder_name]\<rparr>
    \<and> dialogs t = dialogs s @ [CouldNotDetermine folder_name]
    \<and> renames t = renames s
    \<and> filesystem t = filesystem s
    \<and> current_index t = current_index s
    \<and> threads t = threads s"
proof -
  from assms(3) have sel: "selected_candidates s1 folder_name = Some index"
    and fc: "folder_candidates s1 folder_name = Some (Some cs)"
    by (simp_all add: assms(4))
  from assms(7) have ti: "py_or_str (title_english (cs ! index)) (title_romaji (cs ! index)) = Some title"
    unfolding assms(6) py_or_str_def .
  have name: "get_new_name s1 folder_name = Inr (Some [])"
    unfolding get_new_name_valid [OF sel fc assms(5) ti] assms(8) [unfolded assms(6)] ..
  have t: "t = s1\<lparr>dialogs := dialogs s @ [CouldNotDetermine folder_name]\<rparr>"
    unfolding assms(9)
    by (rule candidate_selected_no_name [OF assms(1,2,3) name]) simp
  from name t show ?thesis
    unfolding t assms(3) by simp
qed

theorem empty_name_is_rejected_witness:
  "sanitize_filename (str '' ?*'') = []
   \<and> dialogs (candidate_selected flat_os (demo flat_os fs_a [punct]) 0)
       = [CouldNotDetermine (str ''AoT [BD]'')]
   \<and> renames (candidate_selected flat_os (demo flat_os fs_a [punct]) 0) = []
   \<and> filesystem (candidate_selected flat_os (demo flat_os fs_a [punct]) 0) = fs_a
   \<and> current_index (candidate_selected flat_os (demo flat_os fs_a [punct]) 0) = 0"
proof -
  let ?s = "demo flat_os fs_a [punct]"
  have h1: "current_index ?s < length (folders ?s)"
    unfolding demo_flat_a by simp
  have h2: "str ''AoT [BD]'' = folders ?s ! current_index ?s"
    unfolding demo_flat_a by simp
  have h4: "folder_candidates ?s (str ''AoT [BD]'') = Some (Some [punct])"
    unfolding demo_flat_a rank_single ..
  have h5: "(0::nat) < length [punct]"
    by simp
  have h6: "punct = [punct] ! 0"
    by simp
  have h7: "(if truthy_str (title_english punct) then title_english punct else title_romaji punct)
      = Some (str '' ?*'')"
    by (simp add: punct_fields)
  have e: "sanitize_filename (str '' ?*'') = []"
    by (simp add: sanitize_filename_def invalid_def py_replace_empty_def py_strip_def py_isspace_def)
  have h8: "sanitize_filename
      (str '' ?*'' @ (if truthy_int (startDate_year punct)
         then str '' ('' @ str_int (the (startDate_year punct)) @ str '')'' else [])) = []"
    unfolding punct_fields using e by simp
  note t = empty_name_is_rejected [OF h1 h2 refl h4 h5 h6 h7 h8 refl, of flat_os]
  from t have
    "dialogs (candidate_selected flat_os ?s 0) = dialogs ?s @ [CouldNotDetermine (str ''AoT [BD]'')]
     \<and> renames (candidate_selected flat_os ?s 0) = renames ?s
     \<and> filesystem (candidate_selected flat_os ?s 0) = filesystem ?s
     \<and> current_index (candidate_selected flat_os ?s 0) = current_index ?s"
    by blast
  then have
    "dialogs (candidate_selected flat_os ?s 0) = [CouldNotDetermine (str ''AoT [BD]'')]
     \<and> renames (candidate_selected flat_os ?s 0) = []
     \<and> filesystem (candidate_selected flat_os ?s 0) = fs_a
     \<and> current_index (candidate_selected flat_os ?s 0) = 0"
    unfolding demo_flat_a by simp
  with e show ?thesis
    by blast
qed

section \<open>The walk over the folders\<close>

lemma walk_inv_next_folder:
  assumes "walk_inv fl started s" and "current_index s < length fl"
  shows "walk_inv fl started (next_folder s)"
proof -
  from assms have f: "folders s = fl" and th: "threads s = started @ take (Suc (current_index s)) fl"
    by (simp_all add: walk_inv_def)
  show ?thesis
  proof (cases "Suc (current_index s) < length fl")
    case True
    then have "take (Suc (Suc (current_index s))) fl
        = take (Suc (current_index s)) fl @ [fl ! Suc (current_index s)]"
      by (rule take_Suc_conv_app_nth)
    with True f th show ?thesis
      by (simp add: walk_inv_def next_folder_def show_current_folder_def Let_def)
  next
    case False
    with assms(2) have "Suc (current_index s) = length fl"
      by simp
    with f th show ?thesis
      by (simp add: walk_inv_def next_folder_def show_current_folder_def)
  qed
qed

lemma walk_inv_cong:
  assumes "folders u = folders s" and "current_index u = current_index s"
    and "threads u = threads s" and "skip_btn u = skip_btn s" and "folder_label u = folder_label s"
  shows "walk_inv fl started u = walk_inv fl started s"
  using assms by (simp add: walk_inv_def)

lemma fetch_candidates_fields:
  "folders (fetch_candidates post s f) = folders s"
  "current_index (fetch_candidates post s f) = current_index s"
  "threads (fetch_candidates post s f) = threads s"
  "skip_btn (fetch_candidates post s f) = skip_btn s"
  "folder_label (fetch_candidates post s f) = folder_label s"
  "filesystem (fetch_candidates post s f) = filesystem s"
  "renames (fetch_candidates post s f) = renames s"
  "dialogs (fetch_candidates post s f) = dialogs s"
  by (simp_all add: fetch_candidates_def Let_def split: sum.splits)

lemma show_candidates_fields:
  "folders (show_candidates s) = folders s"
  "current_index (show_candidates s) = current_index s"
  "threads (show_candidates s) = threads s"
  "skip_btn (show_candidates s) = skip_btn s"
  "folder_label (show_candidates s) = folder_label s"
  "filesystem (show_candidates s) = filesystem s"
  "renames (show_candidates s) = renames s"
  "dialogs (show_candidates s) = dialogs s"
  by (simp_all add: show_candidates_def split: option.splits)

lemma candidate_selected_cases:
  obtains (index_error) "length (folders s) \<le> current_index s"
      "candidate_selected os s index = s\<lparr>uncaught := uncaught s @ [IndexError]\<rparr>"
  | (stays) m d r u where "current_index s < length (folders s)"
      "candidate_selected os s index
         = s\<lparr>selected_candidates := m, renames := r, dialogs := d, uncaught := u\<rparr>"
      "r = renames s \<or> d \<noteq> dialogs s"
  | (renamed) m fs' r where "current_index s < length (folders s)"
      "candidate_selected os s index
         = next_folder (s\<lparr>selected_candidates := m, filesystem := fs', renames := r\<rparr>)"
proof (cases "length (folders s) \<le> current_index s")
  case True
  then show ?thesis
    using index_error candidate_selected_index_error by blast
next
  case False
  then have lt: "current_index s < length (folders s)"
    by simp
  define f where "f = folders s ! current_index s"
  define s1 where "s1 = s\<lparr>selected_candidates := (selected_candidates s)(f \<mapsto> index)\<rparr>"
  show ?thesis
  proof (cases "get_new_name s1 f")
    case (Inl e)
    with lt have "candidate_selected os s index
        = s\<lparr>selected_candidates := (selected_candidates s)(f \<mapsto> index), renames := renames s,
             dialogs := dialogs s, uncaught := uncaught s @ [e]\<rparr>"
      by (simp add: candidate_selected_def Let_def f_def s1_def)
    with lt show ?thesis
      using stays by blast
  next
    case (Inr new_name)
    show ?thesis
    proof (cases "truthy_str new_name")
      case False
      with Inr lt have "candidate_selected os s index
          = s\<lparr>selected_candidates := (selected_candidates s)(f \<mapsto> index), renames := renames s,
               dialogs := dialogs s @ [CouldNotDetermine f], uncaught := uncaught s\<rparr>"
        by (simp add: candidate_selected_def Let_def f_def s1_def)
      with lt show ?thesis
        using stays by blast
    next
      case True
      show ?thesis
      proof (cases "folder_paths s f")
        case None
        with True Inr lt have "candidate_selected os s index
            = s\<lparr>selected_candidates := (selected_candidates s)(f \<mapsto> index), renames := renames s,
                 dialogs := dialogs s, uncaught := uncaught s @ [KeyError]\<rparr>"
          by (simp add: candidate_selected_def Let_def f_def s1_def)
        with lt show ?thesis
          using stays by blast
      next
        case (Some old_path)
        define new_path where "new_path = os_path_join os (directory s) (the new_name)"
        show ?thesis
        proof (cases "os_path_exists os (filesystem s) new_path")
          case ex: True
          with Some True Inr lt have "candidate_selected os s index
              = s\<lparr>selected_candidates := (selected_candidates s)(f \<mapsto> index), renames := renames s,
                   dialogs := dialogs s @ [Conflict (the new_name)], uncaught := uncaught s\<rparr>"
            by (simp add: candidate_selected_def Let_def f_def s1_def new_path_def)
          with lt show ?thesis
            using stays by blast
        next
          case free: False
          show ?thesis
          proof (cases "os_rename os (filesystem s) old_path new_path")
            case (Inl e)
            with free Some True Inr lt have "candidate_selected os s index
                = s\<lparr>selected_candidates := (selected_candidates s)(f \<mapsto> index),
                     renames := renames s @ [(old_path, new_path)],
                     dialogs := dialogs s @ [ErrorRenaming f e], uncaught := uncaught s\<rparr>"
              by (simp add: candidate_selected_def Let_def f_def s1_def new_path_def)
            with lt show ?thesis
              using stays by blast
          next
            case r: (Inr fs')
            with free Some True Inr lt have "candidate_selected os s index
                = next_folder (s\<lparr>selected_candidates := (selected_candidates s)(f \<mapsto> index),
                     filesystem := fs', renames := renames s @ [(old_path, new_path)]\<rparr>)"
              by (simp add: candidate_selected_def Let_def f_def s1_def new_path_def)
            with lt show ?thesis
              using renamed by blast
          qed
        qed
      qed
    qed
  qed
qed

lemma walk_inv_candidate_selected:
  assumes "walk_inv fl started s"
  shows "walk_inv fl started (candidate_selected os s index)"
proof (cases rule: candidate_selected_cases [of s os index])
  case index_error
  show ?thesis
    unfolding index_error(2) using assms by (simp add: walk_inv_def)
next
  case (stays m d r u)
  show ?thesis
    unfolding stays(2) using assms by (simp add: walk_inv_def)
next
  case (renamed m fs' r)
  let ?u = "s\<lparr>selected_candidates := m, filesystem := fs', renames := r\<rparr>"
  from assms have "walk_inv fl started ?u"
    by (simp add: walk_inv_def)
  moreover from assms renamed(1) have "current_index ?u < length fl"
    by (simp add: walk_inv_def)
  ultimately show ?thesis
    unfolding renamed(2) by (rule walk_inv_next_folder)
qed

lemma candidate_selected_index:
  "current_index (candidate_selected os s index) = current_index s
   \<or> current_index (candidate_selected os s index) = current_index s + 1"
proof (cases rule: candidate_selected_cases [of s os index])
  case index_error
  show ?thesis unfolding index_error(2) by simp
next
  case (stays m d r u)
  show ?thesis unfolding stays(2) by simp
next
  case (renamed m fs' r)
  show ?thesis unfolding renamed(2) next_folder_fields by simp
qed

lemma candidate_selected_success:
  assumes "renames (candidate_selected os s index) \<noteq> renames s"
    and "dialogs (candidate_selected os s index) = dialogs s"
  shows "current_index (candidate_selected os s index) = current_index s + 1"
proof (cases rule: candidate_selected_cases [of s os index])
  case index_error
  with assms(1) show ?thesis by simp
next
  case (stays m d r u)
  with assms show ?thesis by auto
next
  case (renamed m fs' r)
  show ?thesis unfolding renamed(2) next_folder_fields by simp
qed

lemma step_index:
  assumes "walk_event ev"
  shows "current_index (step os s ev) = current_index s
   \<or> current_index (step os s ev) = current_index s + 1"
proof (cases ev)
  case (SelectDirectory d)
  with assms show ?thesis by simp
next
  case (SetCheckbox b)
  then show ?thesis by simp
next
  case (TypeOverride x)
  then show ?thesis by simp
next
  case ClickSkip
  then show ?thesis
    by (simp add: skip_folder_def next_folder_fields)
next
  case (ClickCandidate i)
  then show ?thesis
    using candidate_selected_index [of os s i] by (simp split: panel.splits)
next
  case (ThreadRuns f out)
  then show ?thesis
    by (simp add: show_candidates_fields fetch_candidates_fields)
qed

lemma walk_inv_step:
  assumes "walk_inv fl started s" and "walk_event ev"
  shows "walk_inv fl started (step os s ev)"
proof (cases ev)
  case (SelectDirectory d)
  with assms(2) show ?thesis by simp
next
  case (SetCheckbox b)
  with assms(1) show ?thesis by (simp add: walk_inv_def)
next
  case (TypeOverride x)
  with assms(1) show ?thesis by (simp add: walk_inv_def)
next
  case ClickSkip
  show ?thesis
  proof (cases "skip_btn s")
    case True
    with assms(1) have lt: "current_index s < length fl" and f: "folders s = fl"
      by (simp_all add: walk_inv_def)
    then have "step os s ev = next_folder s"
      using ClickSkip True by (simp add: skip_folder_def)
    with assms(1) lt show ?thesis
      by (simp add: walk_inv_next_folder)
  next
    case False
    with ClickSkip assms(1) show ?thesis by simp
  qed
next
  case (ClickCandidate i)
  with assms(1) show ?thesis
    by (simp add: walk_inv_candidate_selected split: panel.splits)
next
  case (ThreadRuns f out)
  have "walk_inv fl started (show_candidates (fetch_candidates (\<lambda>_. out) s f)) = walk_inv fl started s"
    by (rule walk_inv_cong) (simp_all add: show_candidates_fields fetch_candidates_fields)
  with assms(1) ThreadRuns show ?thesis by simp
qed

lemma run_append: "run os s (xs @ ys) = run os (run os s xs) ys"
  by (induction xs arbitrary: s) simp_all

lemma walk_inv_run:
  assumes "walk_inv fl started s" and "list_all walk_event evs"
  shows "walk_inv fl started (run os s evs)"
  using assms
proof (induction evs arbitrary: s)
  case Nil
  then show ?case by simp
next
  case (Cons ev evs)
  from Cons.prems have "walk_inv fl started (step os s ev)"
    by (simp add: walk_inv_step)
  with Cons.prems(2) show ?case
    by (simp add: Cons.IH)
qed

lemma run_index_mono:
  assumes "list_all walk_event evs"
  shows "current_index s \<le> current_index (run os s evs)"
  using assms
proof (induction evs arbitrary: s)
  case Nil
  show ?case by simp
next
  case (Cons ev evs)
  from Cons.prems have "current_index s \<le> current_index (step os s ev)"
    using step_index [of ev os s] by auto
  also from Cons.prems have "\<dots> \<le> current_index (run os (step os s ev) evs)"
    by (simp add: Cons.IH)
  finally show ?case by simp
qed

lemma run_prefix_index:
  assumes "list_all walk_event evs"
  shows "current_index (run os s (take k evs)) \<le> current_index (run os s evs)"
proof -
  have "run os s evs = run os (run os s (take k evs)) (drop k evs)"
    by (metis append_take_drop_id run_append)
  moreover from assms have "list_all walk_event (drop k evs)"
    by (simp add: list_all_iff) (meson in_set_dropD)
  ultimately show ?thesis
    by (simp add: run_index_mono)
qed

lemma step_when_done:
  assumes "length (folders s) \<le> current_index s" and "\<not> skip_btn s" and "walk_event ev"
  shows "current_index (step os s ev) = current_index s
    \<and> threads (step os s ev) = threads s
    \<and> renames (step os s ev) = renames s
    \<and> filesystem (step os s ev) = filesystem s
    \<and> dialogs (step os s ev) = dialogs s"
proof (cases ev)
  case (SelectDirectory d)
  with assms(3) show ?thesis by simp
next
  case (SetCheckbox b)
  then show ?thesis by simp
next
  case (TypeOverride x)
  then show ?thesis by simp
next
  case ClickSkip
  with assms(2) show ?thesis by simp
next
  case (ClickCandidate i)
  with assms(1) show ?thesis
    by (simp add: candidate_selected_index_error split: panel.splits)
next
  case (ThreadRuns f out)
  then show ?thesis
    by (simp add: show_candidates_fields fetch_candidates_fields)
qed

lemma run_when_done:
  assumes "walk_inv fl started s" and "current_index s = length fl" and "list_all walk_event evs"
  shows "current_index (run os s evs) = current_index s
    \<and> threads (run os s evs) = threads s
    \<and> renames (run os s evs) = renames s
    \<and> filesystem (run os s evs) = filesystem s
    \<and> dialogs (run os s evs) = dialogs s"
  using assms
proof (induction evs arbitrary: s)
  case Nil
  show ?case by simp
next
  case (Cons ev evs)
  from Cons.prems have d: "length (folders s) \<le> current_index s" "\<not> skip_btn s" "walk_event ev"
    by (simp_all add: walk_inv_def)
  note st = step_when_done [OF d, of os]
  from Cons.prems d(3) have "walk_inv fl started (step os s ev)"
    by (simp add: walk_inv_step)
  moreover from st Cons.prems(2) have "current_index (step os s ev) = length fl"
    by simp
  moreover from Cons.prems(3) have "list_all walk_event evs"
    by simp
  ultimately have "current_index (run os (step os s ev) evs) = current_index (step os s ev)
    \<and> threads (run os (step os s ev) evs) = threads (step os s ev)
    \<and> renames (run os (step os s ev) evs) = renames (step os s ev)
    \<and> filesystem (run os (step os s ev) evs) = filesystem (step os s ev)
    \<and> dialogs (run os (step os s ev) evs) = dialogs (step os s ev)"
    by (rule Cons.IH)
  with st show ?case by simp
qed

lemma fold_load_item_fields:
  "threads (fold (\<lambda>item t. load_item os t item) items s) = threads s"
  by (induction items arbitrary: s) (simp_all add: load_item_def Let_def)

lemma walk_inv_load_folders:
  assumes "folders (load_folders os s) \<noteq> []"
  shows "walk_inv (folders (load_folders os s)) (threads s) (load_folders os s)
    \<and> current_index (load_folders os s) = 0"
proof (cases "os_listdir os (filesystem s) (directory s)")
  case (Inl e)
  with assms show ?thesis
    by (simp add: load_folders_def)
next
  case (Inr items)
  define s1 where
    "s1 = fold (\<lambda>item t. load_item os t item) items (s\<lparr>folders := [], folder_paths := Map.empty\<rparr>)"
  have th: "threads s1 = threads s"
    by (simp add: s1_def fold_load_item_fields)
  show ?thesis
  proof (cases "folders s1 = []")
    case True
    with Inr assms show ?thesis
      by (simp add: load_folders_def s1_def [symmetric] Let_def)
  next
    case False
    then have "take (Suc 0) (folders s1) = [folders s1 ! 0]"
      by (cases "folders s1") simp_all
    with False Inr th show ?thesis
      by (simp add: load_folders_def s1_def [symmetric] show_current_folder_def walk_inv_def Let_def)
  qed
qed

text \<open>
  C7.  Let \<open>s0\<close> be the state that \<open>load_folders\<close> leaves when it has found at least one
  folder, and \<open>t\<close> a state that any sequence of events of the walk leads to from it.
  The index is 0 in \<open>s0\<close>.  In \<open>t\<close> the folder list is the one enumerated, the index is
  at most its length, and the searches started since the enumeration are the folders up
  to the index, each once, in the order of the listing; the label names the folder at
  the index.  The index never decreases along the run, an event moves it by 0 or 1, a
  skip of a folder and a rename that succeeds move it by exactly 1.  When the index has
  reached the number of folders, the label says that all folders are processed, the skip
  button is disabled, and no later event of the walk moves the index, starts a search,
  calls \<^verbatim>\<open>os.rename\<close>, changes the file system or opens a dialog.
\<close>

theorem walk_visits_each_folder_once:
  fixes s :: "'fs wizard"
  assumes "s0 = load_folders os s"
    and "folders s0 \<noteq> []"
    and "list_all walk_event evs"
    and "t = run os s0 evs"
  shows "current_index s0 = 0
    \<and> folders t = folders s0
    \<and> current_index t \<le> length (folders s0)
    \<and> threads t = threads s @ take (Suc (current_index t)) (folders s0)
    \<and> folder_label t =
        (if current_index t < length (folders s0) then str ''Folder: '' @ folders s0 ! current_index t
         else str ''All folders processed.'')
    \<and> skip_btn t = (current_index t < length (folders s0))
    \<and> (\<forall>k. current_index (run os s0 (take k evs)) \<le> current_index t)
    \<and> (\<forall>ev. walk_event ev \<longrightarrow>
          current_index (step os t ev) = current_index t
          \<or> current_index (step os t ev) = current_index t + 1)
    \<and> (current_index t < length (folders s0) \<longrightarrow>
          current_index (step os t ClickSkip) = current_index t + 1)
    \<and> (\<forall>i. renames (candidate_selected os t i) \<noteq> renames t
            \<and> dialogs (candidate_selected os t i) = dialogs t \<longrightarrow>
          current_index (candidate_selected os t i) = current_index t + 1)
    \<and> (current_index t = length (folders s0) \<longrightarrow>
          (\<forall>evs'. list_all walk_event evs' \<longrightarrow>
             current_index (run os t evs') = current_index t
             \<and> threads (run os t evs') = threads t
             \<and> renames (run os t evs') = renames t
             \<and> filesystem (run os t evs') = filesystem t
             \<and> dialogs (run os t evs') = dialogs t))"
proof -
  from assms(1,2) have inv0: "walk_inv (folders s0) (threads s) s0" and i0: "current_index s0 = 0"
    using walk_inv_load_folders [of os s] by simp_all
  from inv0 assms(3) have inv: "walk_inv (folders s0) (threads s) t"
    unfolding assms(4) by (rule walk_inv_run)
  have mono: "\<forall>k. current_index (run os s0 (take k evs)) \<le> current_index t"
    unfolding assms(4) using run_prefix_index [OF assms(3)] by blast
  have one: "\<forall>ev. walk_event ev \<longrightarrow>
          current_index (step os t ev) = current_index t
          \<or> current_index (step os t ev) = current_index t + 1"
    using step_index by blast
  have skip: "current_index t < length (folders s0) \<longrightarrow>
          current_index (step os t ClickSkip) = current_index t + 1"
    using inv by (simp add: walk_inv_def skip_folder_def next_folder_fields)
  have ren: "\<forall>i. renames (candidate_selected os t i) \<noteq> renames t
            \<and> dialogs (candidate_selected os t i) = dialogs t \<longrightarrow>
          current_index (candidate_selected os t i) = current_index t + 1"
    using candidate_selected_success by blast
  have fin: "current_index t = length (folders s0) \<longrightarrow>
          (\<forall>evs'. list_all walk_event evs' \<longrightarrow>
             current_index (run os t evs') = current_index t
             \<and> threads (run os t evs') = threads t
             \<and> renames (run os t evs') = renames t
             \<and> filesystem (run os t evs') = filesystem t
             \<and> dialogs (run os t evs') = dialogs t)"
    using run_when_done [OF inv] by blast
  from inv have "folders t = folders s0" "current_index t \<le> length (folders s0)"
    "threads t = threads s @ take (Suc (current_index t)) (folders s0)"
    "folder_label t =
        (if current_index t < length (folders s0) then str ''Folder: '' @ folders s0 ! current_index t
         else str ''All folders processed.'')"
    "skip_btn t = (current_index t < length (folders s0))"
    by (simp_all add: walk_inv_def)
  with i0 mono one skip ren fin show ?thesis
    by blast
qed
lemma loaded_fields:
  "folders (load_folders flat_os start) = [str ''AoT [BD]'', str ''Naruto'']"
  "threads start = []"
  by (simp_all add: start_def run_defs)

lemma walked_fields:
  "current_index (run flat_os (load_folders flat_os start) walk) = 2"
  "filesystem (run flat_os (load_folders flat_os start) walk)
     = [str ''/a'', str ''/a/Attack on Titan (2013)'', str ''/a/Naruto'']"
  by (simp_all add: walk_def start_def run_defs candidate_selected_def get_new_name_def
      py_or_str_def format_str_def aot_def candidate_def py_sorted_reverse_def
      sanitize_filename_def invalid_def py_replace_empty_def str_int_def str_nat.simps
      next_folder_def skip_folder_def)

theorem walk_visits_each_folder_once_witness:
  "current_index (load_folders flat_os start) = 0
   \<and> current_index (run flat_os (load_folders flat_os start) walk) = 2
   \<and> threads (run flat_os (load_folders flat_os start) walk) = [str ''AoT [BD]'', str ''Naruto'']
   \<and> folder_label (run flat_os (load_folders flat_os start) walk) = str ''All folders processed.''
   \<and> skip_btn (run flat_os (load_folders flat_os start) walk) = False
   \<and> current_index (run flat_os (run flat_os (load_folders flat_os start) walk)
         [ClickSkip, ClickCandidate 0]) = 2
   \<and> filesystem (run flat_os (run flat_os (load_folders flat_os start) walk)
         [ClickSkip, ClickCandidate 0])
       = [str ''/a'', str ''/a/Attack on Titan (2013)'', str ''/a/Naruto'']"
proof -
  let ?s0 = "load_folders flat_os start"
  let ?t = "run flat_os ?s0 walk"
  have h2: "folders ?s0 \<noteq> []"
    unfolding loaded_fields by simp
  have h3: "list_all walk_event walk"
    by (simp add: walk_def)
  note w = walk_visits_each_folder_once [OF refl h2 h3 refl]
  have len: "length (folders ?s0) = 2"
    unfolding loaded_fields by simp
  from w have i0: "current_index ?s0 = 0"
    by (rule conjunct1)
  from w have th: "threads ?t = threads start @ take (Suc (current_index ?t)) (folders ?s0)"
    by blast
  from w have lab: "folder_label ?t =
      (if current_index ?t < length (folders ?s0) then str ''Folder: '' @ folders ?s0 ! current_index ?t
       else str ''All folders processed.'')"
    by blast
  from w have sk: "skip_btn ?t = (current_index ?t < length (folders ?s0))"
    by blast
  have later: "list_all walk_event [ClickSkip, ClickCandidate 0]"
    by simp
  from w walked_fields(1) len later
  have fin: "current_index (run flat_os ?t [ClickSkip, ClickCandidate 0]) = current_index ?t
      \<and> filesystem (run flat_os ?t [ClickSkip, ClickCandidate 0]) = filesystem ?t"
    by (metis (no_types, lifting))
  from th have th': "threads ?t = [str ''AoT [BD]'', str ''Naruto'']"
    unfolding walked_fields loaded_fields by simp
  from lab have lab': "folder_label ?t = str ''All folders processed.''"
    unfolding walked_fields len by simp
  from sk have sk': "skip_btn ?t = False"
    unfolding walked_fields len by simp
  from fin have fin': "current_index (run flat_os ?t [ClickSkip, ClickCandidate 0]) = 2
      \<and> filesystem (run flat_os ?t [ClickSkip, ClickCandidate 0])
          = [str ''/a'', str ''/a/Attack on Titan (2013)'', str ''/a/Naruto'']"
    unfolding walked_fields .
  from i0 walked_fields(1) th' lab' sk' fin' show ?thesis
    by (intro conjI) (elim conjE, assumption)+
qed

section \<open>A search that returns late\<close>

lemma answered_fields:
  "folders answered ! current_index answered = str ''Naruto''"
  "folder_label answered = str ''Folder: Naruto''"
  "candidates_panel answered = Buttons [boruto]"
  by (simp_all add: answered_def run_defs skip_folder_def next_folder_def py_sorted_reverse_def)

lemma crossed_fields:
  "folders crossed ! current_index crossed = str ''Naruto''"
  "folder_label crossed = str ''Folder: Naruto''"
  "threads crossed = [str ''AoT [BD]'', str ''Naruto'']"
  "current_candidates crossed = Some [junior]"
  "candidates_panel crossed = Buttons [junior]"
  "folder_candidates crossed (str ''Naruto'') = Some (Some [boruto])"
  "folder_candidates crossed (str ''AoT [BD]'') = Some (Some [junior])"
  by (simp_all add: crossed_def answered_def run_defs skip_folder_def next_folder_def
      py_sorted_reverse_def)

lemma crossed_click:
  "renames (step flat_os crossed (ClickCandidate 0)) = [(str ''/a/Naruto'', str ''/a/Boruto (2017)'')]"
  "filesystem (step flat_os crossed (ClickCandidate 0))
     = [str ''/a'', str ''/a/AoT [BD]'', str ''/a/Boruto (2017)'']"
  "dialogs (step flat_os crossed (ClickCandidate 0)) = []"
  by (simp_all add: crossed_def answered_def run_defs click_defs boruto_def junior_def)

text \<open>
  C9 fails on the code, which tracks no folder for a search in flight and discards
  nothing.  The first folder is skipped before its search returns.  The search for the
  second folder returns and its candidate is on the panel.  Then the search for the
  first folder returns: \<open>fetch_candidates\<close> overwrites \<open>current_candidates\<close>, which
  the source introduces as the candidates for the current folder, and the panel of the
  second folder now shows the candidate of the first.  A click on that button renames
  the second folder to the name of its own candidate, which is no longer on display.
\<close>

theorem stale_result_is_displayed:
  "folders answered ! current_index answered = str ''Naruto''
   \<and> candidates_panel answered = Buttons [boruto]
   \<and> crossed = step flat_os answered (ThreadRuns (str ''AoT [BD]'') (found [junior]))
   \<and> folders crossed ! current_index crossed = str ''Naruto''
   \<and> folder_label crossed = str ''Folder: Naruto''
   \<and> current_candidates crossed = Some [junior]
   \<and> candidates_panel crossed = Buttons [junior]
   \<and> folder_candidates crossed (str ''Naruto'') = Some (Some [boruto])
   \<and> renames (step flat_os crossed (ClickCandidate 0))
       = [(str ''/a/Naruto'', str ''/a/Boruto (2017)'')]
   \<and> filesystem (step flat_os crossed (ClickCandidate 0))
       = [str ''/a'', str ''/a/AoT [BD]'', str ''/a/Boruto (2017)'']
   \<and> dialogs (step flat_os crossed (ClickCandidate 0)) = []"
  using answered_fields crossed_fields crossed_click crossed_def by blast

end
